theory Spec2Isabelle
  imports Main
begin

section \<open>JavaScript strings\<close>

text \<open>
  A JavaScript string is a sequence of UTF-16 code units and \<open>s.length\<close> counts them.
  The model uses \<open>string\<close>, one \<open>char\<close> per code unit, which covers the code units
  below 256.  Within that range the white space of \<open>String.prototype.trim\<close> and of the
  regular expression class \<open>\s\<close> is TAB, LF, VT, FF, CR, SPACE and NBSP.
\<close>

definition is_ws :: "char \<Rightarrow> bool" where
  "is_ws c = (c \<in> set [CHR 0x09, CHR 0x0A, CHR 0x0B, CHR 0x0C, CHR 0x0D, CHR 0x20, CHR 0xA0])"

definition is_digit :: "char \<Rightarrow> bool" where
  "is_digit c = (c \<in> set ''0123456789'')"

definition is_line_terminator :: "char \<Rightarrow> bool" where
  "is_line_terminator c = (c = CHR 0x0A \<or> c = CHR 0x0D)"

definition trim :: "string \<Rightarrow> string" where
  "trim s = rev (dropWhile is_ws (rev (dropWhile is_ws s)))"

fun startsWith :: "string \<Rightarrow> string \<Rightarrow> bool" where
  "startsWith s [] = True"
| "startsWith [] (p # ps) = False"
| "startsWith (c # s) (p # ps) = (c = p \<and> startsWith s ps)"

text \<open>\<open>s.includes(p)\<close>: \<open>p\<close> occurs in \<open>s\<close> as a contiguous substring.\<close>

fun str_includes :: "string \<Rightarrow> string \<Rightarrow> bool" where
  "str_includes [] p = (p = [])"
| "str_includes (c # s) p = (startsWith (c # s) p \<or> str_includes s p)"

text \<open>\<open>s.replace(p, r)\<close> with a string pattern: only the first occurrence is replaced.\<close>

fun replace_first :: "string \<Rightarrow> string \<Rightarrow> string \<Rightarrow> string" where
  "replace_first [] p r = (if p = [] then r else [])"
| "replace_first (c # s) p r =
     (if startsWith (c # s) p then r @ drop (length p) (c # s) else c # replace_first s p r)"

text \<open>\<open>parts.join(sep)\<close>.\<close>

fun join :: "string \<Rightarrow> string list \<Rightarrow> string" where
  "join sep [] = []"
| "join sep [x] = x"
| "join sep (x # y # ys) = x @ sep @ join sep (y # ys)"

definition upper_ascii :: "char \<Rightarrow> char" where
  "upper_ascii c =
     (case map_of (zip ''abcdefghijklmnopqrstuvwxyz'' ''ABCDEFGHIJKLMNOPQRSTUVWXYZ'') c of
        Some u \<Rightarrow> u
      | None \<Rightarrow> c)"

text \<open>The same function on the bits of the code unit (lowest bit first): the lower case
  letters are the code units 0x61 to 0x7A, and clearing the bit of weight 32 gives the
  capital.\<close>

definition upper_bits :: "char \<Rightarrow> char" where
  "upper_bits c =
     (case c of Char b0 b1 b2 b3 b4 b5 b6 b7 \<Rightarrow>
        if \<not> b7 \<and> b6 \<and> b5 \<and> (b0 \<or> b1 \<or> b2 \<or> b3 \<or> b4) \<and> \<not> (b4 \<and> b3 \<and> (b2 \<or> (b1 \<and> b0)))
        then Char b0 b1 b2 b3 b4 False b6 b7
        else c)"

text \<open>\<open>s.toLowerCase()\<close> on code units below 256: A-Z and the Latin-1 capitals
  (0xC0-0xDE except the multiplication sign 0xD7) move up by 32.\<close>

definition lower_char :: "char \<Rightarrow> char" where
  "lower_char c =
     (let n = (of_char c :: nat) in
      if (65 \<le> n \<and> n \<le> 90) \<or> (192 \<le> n \<and> n \<le> 222 \<and> n \<noteq> 215) then char_of (n + 32) else c)"

definition toLowerCase :: "string \<Rightarrow> string" where
  "toLowerCase s = map lower_char s"

text \<open>Decimal rendering of a number inside a template literal.\<close>

definition digit_char :: "nat \<Rightarrow> char" where
  "digit_char d = ''0123456789'' ! d"

fun show_nat :: "nat \<Rightarrow> string" where
  "show_nat n = (if n < 10 then [digit_char n] else show_nat (n div 10) @ [digit_char (n mod 10)])"

declare show_nat.simps [simp del]

section \<open>Regular expressions\<close>

text \<open>
  The scrapers work by regular expressions.  The patterns are embedded as syntax trees and
  run by a backtracking matcher that follows the ECMAScript rules: alternatives are tried
  left to right, a greedy quantifier tries one more iteration before it tries to go on, a
  lazy one the other way round, and an iteration that consumes nothing is rejected.
  A matcher state holds the code unit before the current position (for the one-character
  lookbehind), the rest of the input, and the captures made so far.
\<close>

datatype cset = Ch char | WS | NonWS | Dig

datatype regex =
    Eps
  | Lit char
  | Str string
  | Dot
  | Cls "cset list"
  | NCls "cset list"
  | Seq regex regex
  | Alt regex regex
  | Star regex
  | LazyStar regex
  | Grp nat regex
  | Bol
  | Eol
  | NotAfter char

type_synonym mstate = "char option \<times> string \<times> (nat \<times> string) list"

text \<open>Two code units are the same under the \<open>i\<close> flag when their canonical (upper case)
  forms are.  The literals of the patterns are all ASCII, and a code unit of 128 or more
  never canonicalizes to an ASCII one, so the canonical form is taken by ASCII case folding.\<close>

definition same_char :: "bool \<Rightarrow> char \<Rightarrow> char \<Rightarrow> bool" where
  "same_char ic a b = (if ic then upper_ascii a = upper_ascii b else a = b)"

fun in_cset :: "bool \<Rightarrow> char \<Rightarrow> cset \<Rightarrow> bool" where
  "in_cset ic c (Ch d) = same_char ic d c"
| "in_cset ic c WS = is_ws c"
| "in_cset ic c NonWS = (\<not> is_ws c)"
| "in_cset ic c Dig = is_digit c"

text \<open>The input starts with the literal text \<open>p\<close>, compared under the \<open>i\<close> flag.\<close>

fun lit_prefix :: "bool \<Rightarrow> string \<Rightarrow> string \<Rightarrow> bool" where
  "lit_prefix ic s [] = True"
| "lit_prefix ic [] (p # ps) = False"
| "lit_prefix ic (c # s) (p # ps) = (same_char ic p c \<and> lit_prefix ic s ps)"

definition step_char :: "(char \<Rightarrow> bool) \<Rightarrow> mstate \<Rightarrow> (mstate \<Rightarrow> mstate option) \<Rightarrow> mstate option" where
  "step_char P st k =
     (case st of (prev, rest, caps) \<Rightarrow>
        (case rest of [] \<Rightarrow> None | c # cs \<Rightarrow> if P c then k (Some c, cs, caps) else None))"

text \<open>
  The iteration of a quantifier.  Every accepted iteration consumes at least one code unit,
  so the length of the remaining input bounds the number of iterations.
\<close>

primrec star_loop :: "nat \<Rightarrow> bool \<Rightarrow> (mstate \<Rightarrow> (mstate \<Rightarrow> mstate option) \<Rightarrow> mstate option)
    \<Rightarrow> mstate \<Rightarrow> (mstate \<Rightarrow> mstate option) \<Rightarrow> mstate option" where
  "star_loop 0 greedy m st k = k st"
| "star_loop (Suc n) greedy m st k =
     (if greedy then
        (case m st (\<lambda>st'. if length (fst (snd st')) < length (fst (snd st))
                            then star_loop n greedy m st' k else None) of
           Some r \<Rightarrow> Some r
         | None \<Rightarrow> k st)
      else
        (case k st of
           Some r \<Rightarrow> Some r
         | None \<Rightarrow> m st (\<lambda>st'. if length (fst (snd st')) < length (fst (snd st))
                                  then star_loop n greedy m st' k else None)))"

primrec rx :: "regex \<Rightarrow> bool \<Rightarrow> mstate \<Rightarrow> (mstate \<Rightarrow> mstate option) \<Rightarrow> mstate option" where
  "rx Eps ic st k = k st"
| "rx (Lit c) ic st k = step_char (same_char ic c) st k"
| "rx (Str p) ic st k =
     (case st of (prev, rest, caps) \<Rightarrow>
        if lit_prefix ic rest p
        then k (if p = [] then prev else Some (last (take (length p) rest)), drop (length p) rest, caps)
        else None)"
| "rx Dot ic st k = step_char (\<lambda>c. \<not> is_line_terminator c) st k"
| "rx (Cls cs) ic st k = step_char (\<lambda>c. list_ex (in_cset ic c) cs) st k"
| "rx (NCls cs) ic st k = step_char (\<lambda>c. \<not> list_ex (in_cset ic c) cs) st k"
| "rx (Seq a b) ic st k = rx a ic st (\<lambda>st'. rx b ic st' k)"
| "rx (Alt a b) ic st k = (case rx a ic st k of Some r \<Rightarrow> Some r | None \<Rightarrow> rx b ic st k)"
| "rx (Star a) ic st k = star_loop (length (fst (snd st))) True (rx a ic) st k"
| "rx (LazyStar a) ic st k = star_loop (length (fst (snd st))) False (rx a ic) st k"
| "rx (Grp n a) ic st k =
     rx a ic st (\<lambda>st'. case st' of (prev', rest', caps') \<Rightarrow>
        k (prev', rest', (n, take (length (fst (snd st)) - length rest') (fst (snd st))) # caps'))"
| "rx Bol ic st k = (if fst st = None then k st else None)"
| "rx Eol ic st k = (if fst (snd st) = [] then k st else None)"
| "rx (NotAfter c) ic st k = (if fst st = Some c then None else k st)"

text \<open>Abbreviations for reading the patterns: a sequence, an ordered alternation,
  \<open>a+\<close> and \<open>a?\<close>.  \<open>Str p\<close> is the literal text \<open>p\<close>.\<close>

definition cat :: "regex list \<Rightarrow> regex" where
  "cat rs = foldr Seq rs Eps"

fun alts :: "regex list \<Rightarrow> regex" where
  "alts [] = Eps"
| "alts [r] = r"
| "alts (r # rs) = Alt r (alts rs)"

definition plus :: "regex \<Rightarrow> regex" where
  "plus a = Seq a (Star a)"

definition opt :: "regex \<Rightarrow> regex" where
  "opt a = Alt a Eps"

text \<open>A match that starts exactly at the current position: the matched text and the captures.\<close>

type_synonym rmatch = "string \<times> (nat \<times> string) list"

definition match_at :: "regex \<Rightarrow> bool \<Rightarrow> char option \<Rightarrow> string \<Rightarrow> rmatch option" where
  "match_at r ic prev s =
     (case rx r ic (prev, s, []) Some of
        None \<Rightarrow> None
      | Some (prev', rest', caps) \<Rightarrow> Some (take (length s - length rest') s, caps))"

text \<open>The leftmost match, as \<open>RegExp.prototype.exec\<close> finds it.\<close>

fun search :: "regex \<Rightarrow> bool \<Rightarrow> char option \<Rightarrow> string \<Rightarrow> rmatch option" where
  "search r ic prev [] = match_at r ic prev []"
| "search r ic prev (c # cs) =
     (case match_at r ic prev (c # cs) of
        Some m \<Rightarrow> Some m
      | None \<Rightarrow> search r ic (Some c) cs)"

text \<open>\<open>s.match(re)\<close> for a pattern without the \<open>g\<close> flag; \<open>ic\<close> is the \<open>i\<close> flag.\<close>

definition str_match :: "string \<Rightarrow> regex \<Rightarrow> bool \<Rightarrow> rmatch option" where
  "str_match s r ic = search r ic None s"

text \<open>\<open>match[1]\<close> when \<open>match && match[1]\<close> holds: the first capture, if it is a non-empty
  string.\<close>

definition group1 :: "rmatch option \<Rightarrow> string option" where
  "group1 m =
     (case m of
        None \<Rightarrow> None
      | Some (whole, caps) \<Rightarrow>
          (case map_of caps 1 of None \<Rightarrow> None | Some g \<Rightarrow> if g = [] then None else Some g))"

definition re_test :: "regex \<Rightarrow> bool \<Rightarrow> string \<Rightarrow> bool" where
  "re_test r ic s = (str_match s r ic \<noteq> None)"

text \<open>
  With the \<open>g\<close> flag the matches are taken left to right without overlap.  \<open>skip\<close> counts
  the code units of the current match that are still to be passed over; after an empty
  match the search moves on by one code unit.
\<close>

fun match_all_from :: "regex \<Rightarrow> bool \<Rightarrow> nat \<Rightarrow> char option \<Rightarrow> string \<Rightarrow> string list" where
  "match_all_from r ic skip prev [] =
     (if skip = 0 then (case match_at r ic prev [] of Some (m, caps) \<Rightarrow> [m] | None \<Rightarrow> []) else [])"
| "match_all_from r ic (Suc k) prev (c # cs) = match_all_from r ic k (Some c) cs"
| "match_all_from r ic 0 prev (c # cs) =
     (case match_at r ic prev (c # cs) of
        None \<Rightarrow> match_all_from r ic 0 (Some c) cs
      | Some (m, caps) \<Rightarrow> m # match_all_from r ic (length m - 1) (Some c) cs)"

text \<open>\<open>s.match(re)\<close> for a pattern with the \<open>g\<close> flag: all matched texts, or \<open>null\<close>.\<close>

definition str_match_all :: "string \<Rightarrow> regex \<Rightarrow> bool \<Rightarrow> string list option" where
  "str_match_all s r ic = (case match_all_from r ic 0 None s of [] \<Rightarrow> None | ms \<Rightarrow> Some ms)"

fun replace_all_from :: "regex \<Rightarrow> bool \<Rightarrow> string \<Rightarrow> nat \<Rightarrow> char option \<Rightarrow> string \<Rightarrow> string" where
  "replace_all_from r ic rep skip prev [] =
     (if skip = 0 then (case match_at r ic prev [] of Some m \<Rightarrow> rep | None \<Rightarrow> []) else [])"
| "replace_all_from r ic rep (Suc k) prev (c # cs) = replace_all_from r ic rep k (Some c) cs"
| "replace_all_from r ic rep 0 prev (c # cs) =
     (case match_at r ic prev (c # cs) of
        None \<Rightarrow> c # replace_all_from r ic rep 0 (Some c) cs
      | Some (m, caps) \<Rightarrow>
          (if m = [] then rep @ c # replace_all_from r ic rep 0 (Some c) cs
           else rep @ replace_all_from r ic rep (length m - 1) (Some c) cs))"

text \<open>\<open>s.replace(re, rep)\<close> for a pattern with the \<open>g\<close> flag and a replacement text without
  \<open>$\<close> references.\<close>

definition re_replace_all :: "string \<Rightarrow> regex \<Rightarrow> bool \<Rightarrow> string \<Rightarrow> string" where
  "re_replace_all s r ic rep = replace_all_from r ic rep 0 None s"

text \<open>\<open>s.split(re).length\<close> for a pattern that never matches the empty string: one more
  than the number of matches.\<close>

definition split_count :: "string \<Rightarrow> regex \<Rightarrow> nat" where
  "split_count s r = Suc (length (match_all_from r False 0 None s))"

section \<open>Source classifier and video id\<close>

text \<open>\<open>getContentType\<close> of the client library and \<open>getContentTypeFromUrl\<close> of the scrape
  route.\<close>

definition getContentType :: "string \<Rightarrow> string" where
  "getContentType url =
     (if str_includes url ''youtube.com'' \<or> str_includes url ''youtu.be'' then ''youtube''
      else if str_includes url ''tiktok.com'' then ''tiktok''
      else if str_includes url ''instagram.com'' then ''instagram''
      else ''url'')"

definition getContentTypeFromUrl :: "string \<Rightarrow> string" where
  "getContentTypeFromUrl url =
     (if str_includes url ''youtube.com'' \<or> str_includes url ''youtu.be'' then ''youtube''
      else if str_includes url ''tiktok.com'' then ''tiktok''
      else if str_includes url ''instagram.com'' then ''instagram''
      else ''url'')"

text \<open>The character class \<open>[^&\n?#]\<close> of the video id.\<close>

definition id_char :: regex where
  "id_char = NCls [Ch CHR ''&'', Ch CHR 0x0A, Ch CHR ''?'', Ch CHR ''#'']"

text \<open>The client library's patterns:
  \<^verbatim>\<open>/(?:youtube\.com\/watch\?v=|youtu\.be\/|youtube\.com\/embed\/)([^&\n?#]+)/\<close> and
  \<^verbatim>\<open>/youtube\.com\/watch\?.*v=([^&\n?#]+)/\<close>.\<close>

definition lib_id_pattern1 :: regex where
  "lib_id_pattern1 =
     cat [alts [Str ''youtube.com/watch?v='', Str ''youtu.be/'', Str ''youtube.com/embed/''],
          Grp 1 (plus id_char)]"

definition id_pattern2 :: regex where
  "id_pattern2 = cat [Str ''youtube.com/watch?'', Star Dot, Str ''v='', Grp 1 (plus id_char)]"

text \<open>The route's first pattern has a fourth alternative:
  \<^verbatim>\<open>/(?:youtube\.com\/watch\?v=|youtu\.be\/|youtube\.com\/embed\/|youtube\.com\/v\/)([^&\n?#]+)/\<close>.\<close>

definition route_id_pattern1 :: regex where
  "route_id_pattern1 =
     cat [alts [Str ''youtube.com/watch?v='', Str ''youtu.be/'', Str ''youtube.com/embed/'',
                Str ''youtube.com/v/''],
          Grp 1 (plus id_char)]"

text \<open>The client library returns \<open>match[1]\<close> of the first pattern that matches.\<close>

fun lib_first_id :: "regex list \<Rightarrow> string \<Rightarrow> string option" where
  "lib_first_id [] url = None"
| "lib_first_id (p # ps) url =
     (case str_match url p False of
        Some (whole, caps) \<Rightarrow> map_of caps 1
      | None \<Rightarrow> lib_first_id ps url)"

definition lib_extractYouTubeVideoId :: "string \<Rightarrow> string option" where
  "lib_extractYouTubeVideoId url = lib_first_id [lib_id_pattern1, id_pattern2] url"

text \<open>The route returns it only under \<open>match && match[1]\<close>.\<close>

fun route_first_id :: "regex list \<Rightarrow> string \<Rightarrow> string option" where
  "route_first_id [] url = None"
| "route_first_id (p # ps) url =
     (case group1 (str_match url p False) of
        Some g \<Rightarrow> Some g
      | None \<Rightarrow> route_first_id ps url)"

definition extractYouTubeVideoId :: "string \<Rightarrow> string option" where
  "extractYouTubeVideoId url = route_first_id [route_id_pattern1, id_pattern2] url"

section \<open>Values, results and thrown errors\<close>

text \<open>
  An optional string field or variable: \<open>None\<close> is \<open>undefined\<close>.  JSON leaves that the code
  reads as text are modelled as strings; \<open>truthy\<close> is JavaScript's truth test on them and
  \<open>tpl\<close> is the rendering inside a template literal.
\<close>

definition truthy :: "string option \<Rightarrow> bool" where
  "truthy v = (case v of None \<Rightarrow> False | Some s \<Rightarrow> s \<noteq> [])"

definition tpl :: "string option \<Rightarrow> string" where
  "tpl v = (case v of None \<Rightarrow> ''undefined'' | Some s \<Rightarrow> s)"

text \<open>\<open>a || b\<close> on an optional string and a string.\<close>

definition or_else :: "string option \<Rightarrow> string \<Rightarrow> string" where
  "or_else v d = (case v of None \<Rightarrow> d | Some s \<Rightarrow> if s = [] then d else s)"

datatype jv = JStr string | JNum nat | JBool bool | JList "string list" | JUndef

definition jopt :: "string option \<Rightarrow> jv" where
  "jopt v = (case v of None \<Rightarrow> JUndef | Some s \<Rightarrow> JStr s)"

text \<open>The \<open>ScrapingResult\<close> interface.  The metadata object is kept as its list of
  properties in source order.\<close>

record ScrapingResult =
  success :: bool
  title :: "string option"
  content :: "string option"
  metadata :: "(string \<times> jv) list option"
  error :: "string option"

definition failure :: "string \<Rightarrow> ScrapingResult" where
  "failure msg = \<lparr>success = False, title = None, content = None, metadata = None, error = Some msg\<rparr>"

text \<open>A thrown value: an \<open>Error\<close> with its message, or something that is not an
  \<open>Error\<close> instance.\<close>

datatype exn = Error string | NonError

section \<open>The scrape route: its environment\<close>

text \<open>
  What the route reads from outside.  A response carries its body as the code reads it:
  as text, as the oEmbed object, or as the video list of the platform API (\<open>Inl\<close> when
  reading or parsing throws, which includes a body that is not an object).
\<close>

record oembed_json =
  oe_title :: "string option"
  oe_author_name :: "string option"

record snippet_json =
  sn_title :: "string option"
  sn_description :: "string option"
  sn_channelTitle :: "string option"
  sn_publishedAt :: "string option"

record statistics_json =
  st_viewCount :: "string option"

record video_json =
  snippet :: "snippet_json option"
  statistics :: "statistics_json option"

record videos_json =
  items :: "video_json list option"

record response =
  ok :: bool
  status :: nat
  statusText :: string
  body_text :: "exn + string"
  body_oembed :: "exn + oembed_json"
  body_videos :: "exn + videos_json"

record server_env =
  transcript_module :: bool
  fetchTranscript :: "string \<Rightarrow> string option \<Rightarrow> exn + string list"
  fetch :: "string \<Rightarrow> exn + response"
  youtube_api_key :: "string option"
  url_hostname :: "string \<Rightarrow> string option"

text \<open>
  \<open>transcript_module\<close>: whether the dynamic import of the transcript library succeeds.
  \<open>fetchTranscript id lang\<close>: the library call, returning the segment texts.
  \<open>url_hostname url\<close>: \<open>new URL(url).hostname\<close>, \<open>None\<close> when the constructor throws.
  The calls made to the outside are recorded in order.
\<close>

datatype call = TranscriptCall string "string option" | Fetch string

text \<open>\<open>encodeURIComponent\<close> on code units below 256: unreserved characters stay, the
  others are written as the percent-encoded bytes of their UTF-8 form.\<close>

definition hex_digit :: "nat \<Rightarrow> char" where
  "hex_digit d = ''0123456789ABCDEF'' ! d"

definition pct :: "nat \<Rightarrow> string" where
  "pct b = [CHR ''%'', hex_digit (b div 16), hex_digit (b mod 16)]"

definition uri_unreserved :: "char \<Rightarrow> bool" where
  "uri_unreserved c =
     (c \<in> set ''ABCDEFGHIJKLMNOPQRSTUVWXYZabcdefghijklmnopqrstuvwxyz0123456789-_.!~*'()'')"

definition encode_char :: "char \<Rightarrow> string" where
  "encode_char c =
     (let n = (of_char c :: nat) in
      if uri_unreserved c then [c]
      else if n < 128 then pct n
      else pct (192 + n div 64) @ pct (128 + n mod 64))"

definition encodeURIComponent :: "string \<Rightarrow> string" where
  "encodeURIComponent s = concat (map encode_char s)"

section \<open>The video strategy chain\<close>

record yt_vars =
  videoTitle :: "string option"
  videoDescription :: "string option"
  transcript :: string
  channelName :: "string option"
  viewCount :: "string option"
  publishDate :: "string option"
  calls :: "call list"

definition yt_init :: yt_vars where
  "yt_init = \<lparr>videoTitle = Some [], videoDescription = Some [], transcript = [],
     channelName = Some [], viewCount = Some [], publishDate = Some [], calls = []\<rparr>"

subsection \<open>Method 1: transcript\<close>

text \<open>\<^verbatim>\<open>.replace(/\[.*?\]/g, '').replace(/\s+/g, ' ').trim()\<close> on the joined segments.\<close>

definition bracketed :: regex where
  "bracketed = cat [Lit CHR ''['', LazyStar Dot, Lit CHR '']'']"

definition ws_run :: regex where
  "ws_run = plus (Cls [WS])"

definition clean_transcript :: "string list \<Rightarrow> string" where
  "clean_transcript segs =
     trim (re_replace_all (re_replace_all (join '' '' segs) bracketed False []) ws_run False '' '')"

fun transcript_loop :: "server_env \<Rightarrow> string \<Rightarrow> string option list \<Rightarrow> yt_vars \<Rightarrow> yt_vars" where
  "transcript_loop env vid [] v = v"
| "transcript_loop env vid (lang # langs) v =
     (let v1 = v\<lparr>calls := calls v @ [TranscriptCall vid lang]\<rparr> in
      case fetchTranscript env vid lang of
        Inl e \<Rightarrow> transcript_loop env vid langs v1
      | Inr segs \<Rightarrow>
          if segs \<noteq> [] then v1\<lparr>transcript := clean_transcript segs\<rparr>
          else transcript_loop env vid langs v1)"

definition transcript_method :: "server_env \<Rightarrow> string \<Rightarrow> yt_vars \<Rightarrow> yt_vars" where
  "transcript_method env vid v =
     (if transcript_module env then transcript_loop env vid [Some ''en'', Some ''ar'', None] v
      else v)"

subsection \<open>Method 2: page scrape\<close>

definition not_quote :: regex where
  "not_quote = NCls [Ch CHR 0x22]"

definition backslash :: char where
  "backslash = CHR 0x5C"

text \<open>The title patterns, each with its \<open>i\<close> flag:
  \<^verbatim>\<open>/<title>([^<]+)<\/title>/i\<close>,
  \<^verbatim>\<open>/"title":"([^"]+)"/i\<close>,
  \<^verbatim>\<open>/property="og:title" content="([^"]+)"/i\<close>,
  \<^verbatim>\<open>/<meta name="title" content="([^"]+)"/i\<close>.\<close>

definition yt_title_patterns :: "(regex \<times> bool) list" where
  \<open>yt_title_patterns =
     [(cat [Str ''<title>'', Grp 1 (plus (NCls [Ch CHR ''<''])), Str ''</title>''], True),
      (cat [Str ''"title":"'', Grp 1 (plus not_quote), Str ''"''], True),
      (cat [Str ''property="og:title" content="'', Grp 1 (plus not_quote), Str ''"''], True),
      (cat [Str ''<meta name="title" content="'', Grp 1 (plus not_quote), Str ''"''], True)]\<close>

text \<open>The escapes undone in scraped text: \<^verbatim>\<open>/\\u0026/g\<close>, \<^verbatim>\<open>/\\"/g\<close>, \<^verbatim>\<open>/\\n/g\<close>,
  \<^verbatim>\<open>/\\u003c/g\<close> and \<^verbatim>\<open>/\\u003e/g\<close>.\<close>

definition esc :: "string \<Rightarrow> regex" where
  "esc s = Str (backslash # s)"

definition clean_title :: "string \<Rightarrow> string" where
  "clean_title g =
     trim (re_replace_all
            (re_replace_all (replace_first g '' - YouTube'' []) (esc ''u0026'') False ''&'')
            (esc [CHR 0x22]) False [CHR 0x22])"

fun yt_title_loop :: "(regex \<times> bool) list \<Rightarrow> string \<Rightarrow> string option \<Rightarrow> string option" where
  "yt_title_loop [] html cur = cur"
| "yt_title_loop ((p, ic) # ps) html cur =
     (case group1 (str_match html p ic) of
        None \<Rightarrow> yt_title_loop ps html cur
      | Some g \<Rightarrow>
          (let t = clean_title g in
           if 5 < length t then Some t else yt_title_loop ps html (Some t)))"

text \<open>The description patterns:
  \<^verbatim>\<open>/"shortDescription":"([\s\S]*?)(?<!\\)"/\<close>,
  \<^verbatim>\<open>/"description":\{"simpleText":"([^"]+)"\}/\<close>,
  \<^verbatim>\<open>/property="og:description" content="([^"]+)"/i\<close>,
  \<^verbatim>\<open>/<meta name="description" content="([^"]+)"/i\<close>.\<close>

definition yt_desc_patterns :: "(regex \<times> bool) list" where
  \<open>yt_desc_patterns =
     [(cat [Str ''"shortDescription":"'', Grp 1 (LazyStar (Cls [WS, NonWS])),
            NotAfter backslash, Lit CHR 0x22], False),
      (cat [Str ''"description":{"simpleText":"'', Grp 1 (plus not_quote), Str ''"}''], False),
      (cat [Str ''property="og:description" content="'', Grp 1 (plus not_quote), Str ''"''], True),
      (cat [Str ''<meta name="description" content="'', Grp 1 (plus not_quote), Str ''"''], True)]\<close>

definition clean_description :: "string \<Rightarrow> string" where
  "clean_description g =
     trim (re_replace_all
            (re_replace_all
              (re_replace_all
                (re_replace_all
                  (re_replace_all g (esc ''n'') False [CHR 0x0A])
                  (esc [CHR 0x22]) False [CHR 0x22])
                (esc ''u0026'') False ''&'')
              (esc ''u003c'') False ''<'')
            (esc ''u003e'') False ''>'')"

fun yt_desc_loop :: "(regex \<times> bool) list \<Rightarrow> string \<Rightarrow> string option \<Rightarrow> string option" where
  "yt_desc_loop [] html cur = cur"
| "yt_desc_loop ((p, ic) # ps) html cur =
     (case group1 (str_match html p ic) of
        None \<Rightarrow> yt_desc_loop ps html cur
      | Some g \<Rightarrow>
          (let d = clean_description g in
           if 20 < length d then Some d else yt_desc_loop ps html (Some d)))"

text \<open>\<open>html.match(a) || html.match(b) || ...\<close>: the first pattern that matches.\<close>

fun first_match :: "string \<Rightarrow> (regex \<times> bool) list \<Rightarrow> rmatch option" where
  "first_match html [] = None"
| "first_match html ((p, ic) # ps) =
     (case str_match html p ic of Some m \<Rightarrow> Some m | None \<Rightarrow> first_match html ps)"

text \<open>Channel: \<^verbatim>\<open>/"ownerChannelName":"([^"]+)"/\<close>, \<^verbatim>\<open>/"channelName":"([^"]+)"/\<close>,
  \<^verbatim>\<open>/property="og:video:tag" content="([^"]+)"/\<close>.
  Views: \<^verbatim>\<open>/"viewCount":"([^"]+)"/\<close>, \<^verbatim>\<open>/(\d+(?:,\d{3})*)\s+views/i\<close>.\<close>

definition yt_channel_patterns :: "(regex \<times> bool) list" where
  \<open>yt_channel_patterns =
     [(cat [Str ''"ownerChannelName":"'', Grp 1 (plus not_quote), Str ''"''], False),
      (cat [Str ''"channelName":"'', Grp 1 (plus not_quote), Str ''"''], False),
      (cat [Str ''property="og:video:tag" content="'', Grp 1 (plus not_quote), Str ''"''], False)]\<close>

definition yt_view_patterns :: "(regex \<times> bool) list" where
  \<open>yt_view_patterns =
     [(cat [Str ''"viewCount":"'', Grp 1 (plus not_quote), Str ''"''], False),
      (cat [Grp 1 (cat [plus (Cls [Dig]),
                        Star (cat [Lit CHR '','', Cls [Dig], Cls [Dig], Cls [Dig]])]),
            plus (Cls [WS]), Str ''views''], True)]\<close>

text \<open>
  The page scrape.  A failed fetch, a response that is not ok and a body that cannot be
  read all leave the variables as they were.  (The source also looks for a captions block
  when there is no transcript, and only logs that it found one.)
\<close>

definition watch_url :: "string \<Rightarrow> string" where
  "watch_url vid = ''https://www.youtube.com/watch?v='' @ vid"

definition scrape_page :: "string \<Rightarrow> yt_vars \<Rightarrow> yt_vars" where
  "scrape_page html v =
     (let v1 = v\<lparr>videoTitle := yt_title_loop yt_title_patterns html (videoTitle v)\<rparr>;
          v2 = v1\<lparr>videoDescription := yt_desc_loop yt_desc_patterns html (videoDescription v1)\<rparr>;
          v3 = (case group1 (first_match html yt_channel_patterns) of
                  None \<Rightarrow> v2
                | Some g \<Rightarrow> v2\<lparr>channelName := Some (re_replace_all g (esc ''u0026'') False ''&'')\<rparr>);
          v4 = (case group1 (first_match html yt_view_patterns) of
                  None \<Rightarrow> v3
                | Some g \<Rightarrow> v3\<lparr>viewCount := Some g\<rparr>)
      in v4)"

definition page_method :: "server_env \<Rightarrow> string \<Rightarrow> yt_vars \<Rightarrow> yt_vars" where
  "page_method env vid v =
     (let v1 = v\<lparr>calls := calls v @ [Fetch (watch_url vid)]\<rparr> in
      case fetch env (watch_url vid) of
        Inl e \<Rightarrow> v1
      | Inr resp \<Rightarrow>
          if \<not> ok resp then v1
          else (case body_text resp of Inl e \<Rightarrow> v1 | Inr html \<Rightarrow> scrape_page html v1))"

subsection \<open>Method 2.5: oEmbed\<close>

text \<open>\<^verbatim>\<open>!videoTitle || videoTitle.length < 3 || /^(\d+[kKmM]?)$/.test(videoTitle)\<close>.\<close>

definition weak_title_pattern :: regex where
  "weak_title_pattern =
     cat [Bol, Grp 1 (cat [plus (Cls [Dig]),
                           opt (Cls [Ch CHR ''k'', Ch CHR ''K'', Ch CHR ''m'', Ch CHR ''M''])]), Eol]"

definition looksWeakTitle :: "string option \<Rightarrow> bool" where
  "looksWeakTitle t =
     (case t of
        None \<Rightarrow> True
      | Some s \<Rightarrow> s = [] \<or> length s < 3 \<or> re_test weak_title_pattern False s)"

definition oembed_url :: "string \<Rightarrow> string" where
  "oembed_url url = ''https://www.youtube.com/oembed?url='' @ encodeURIComponent url @ ''&format=json''"

definition apply_oembed :: "oembed_json \<Rightarrow> yt_vars \<Rightarrow> yt_vars" where
  "apply_oembed oe v =
     (let v1 = (if \<not> truthy (videoTitle v) \<and> truthy (oe_title oe)
                then v\<lparr>videoTitle := oe_title oe\<rparr> else v);
          v2 = (if \<not> truthy (channelName v1) \<and> truthy (oe_author_name oe)
                then v1\<lparr>channelName := oe_author_name oe\<rparr> else v1)
      in v2)"

definition oembed_method :: "server_env \<Rightarrow> string \<Rightarrow> yt_vars \<Rightarrow> yt_vars" where
  "oembed_method env url v =
     (if looksWeakTitle (videoTitle v) then
        (let v1 = v\<lparr>calls := calls v @ [Fetch (oembed_url url)]\<rparr> in
         case fetch env (oembed_url url) of
           Inl e \<Rightarrow> v1
         | Inr resp \<Rightarrow>
             if \<not> ok resp then v1
             else (case body_oembed resp of Inl e \<Rightarrow> v1 | Inr oe \<Rightarrow> apply_oembed oe v1))
      else v)"

subsection \<open>Method 3: platform API\<close>

definition api_url :: "string \<Rightarrow> string \<Rightarrow> string" where
  "api_url vid key =
     ''https://www.googleapis.com/youtube/v3/videos?part=snippet,statistics&id='' @ vid
       @ ''&key='' @ key"

text \<open>
  The five assignments from the first item.  Reading a property of a missing \<open>snippet\<close> or
  \<open>statistics\<close> throws inside the \<open>try\<close>: the assignments made before it stay.
\<close>

definition apply_video :: "video_json \<Rightarrow> yt_vars \<Rightarrow> yt_vars" where
  "apply_video video v =
     (case snippet video of
        None \<Rightarrow>
          (if truthy (videoTitle v) \<and> truthy (videoDescription v) \<and> truthy (channelName v)
              \<and> \<not> truthy (viewCount v) then
             (case statistics video of
                None \<Rightarrow> v
              | Some stats \<Rightarrow> v\<lparr>viewCount := st_viewCount stats\<rparr>)
           else v)
      | Some sn \<Rightarrow>
          (let v1 = (if \<not> truthy (videoTitle v) then v\<lparr>videoTitle := sn_title sn\<rparr> else v);
               v2 = (if \<not> truthy (videoDescription v1)
                     then v1\<lparr>videoDescription := sn_description sn\<rparr> else v1);
               v3 = (if \<not> truthy (channelName v2)
                     then v2\<lparr>channelName := sn_channelTitle sn\<rparr> else v2)
           in if \<not> truthy (viewCount v3) then
                (case statistics video of
                   None \<Rightarrow> v3
                 | Some stats \<Rightarrow> v3\<lparr>viewCount := st_viewCount stats, publishDate := sn_publishedAt sn\<rparr>)
              else v3\<lparr>publishDate := sn_publishedAt sn\<rparr>))"

definition api_method :: "server_env \<Rightarrow> string \<Rightarrow> yt_vars \<Rightarrow> yt_vars" where
  "api_method env vid v =
     (if truthy (youtube_api_key env) \<and> (\<not> truthy (videoTitle v) \<or> \<not> truthy (videoDescription v)) then
        (let v1 = v\<lparr>calls := calls v @ [Fetch (api_url vid (tpl (youtube_api_key env)))]\<rparr> in
         case fetch env (api_url vid (tpl (youtube_api_key env))) of
           Inl e \<Rightarrow> v1
         | Inr resp \<Rightarrow>
             if \<not> ok resp then v1
             else (case body_videos resp of
                     Inl e \<Rightarrow> v1
                   | Inr data \<Rightarrow>
                       (case items data of
                          None \<Rightarrow> v1
                        | Some [] \<Rightarrow> v1
                        | Some (video # rest) \<Rightarrow> apply_video video v1)))
      else v)"

subsection \<open>Synthesis\<close>

definition has_transcript :: "yt_vars \<Rightarrow> bool" where
  "has_transcript v = (transcript v \<noteq> [] \<and> 100 < length (transcript v))"

definition has_description :: "yt_vars \<Rightarrow> bool" where
  "has_description v = (truthy (videoDescription v) \<and> 20 < length (tpl (videoDescription v)))"

definition assemble :: "yt_vars \<Rightarrow> string" where
  "assemble v =
     (if has_transcript v then ''TRANSCRIPT:\<newline>'' @ transcript v @ ''\<newline>\<newline>'' else [])
     @ (if truthy (videoTitle v) then ''TITLE: '' @ tpl (videoTitle v) @ ''\<newline>\<newline>'' else [])
     @ (if has_description v
        then ''DESCRIPTION:\<newline>'' @ tpl (videoDescription v) @ ''\<newline>\<newline>'' else [])
     @ (if truthy (channelName v) then ''CHANNEL: '' @ tpl (channelName v) @ ''\<newline>\<newline>'' else [])
     @ (if truthy (viewCount v) then ''Views: '' @ tpl (viewCount v) @ ''\<newline>\<newline>'' else [])"

definition assembled_sources :: "yt_vars \<Rightarrow> string list" where
  "assembled_sources v =
     (if has_transcript v then [''Video Transcript''] else [])
     @ (if has_description v then [''Video Description''] else [])"

text \<open>The fixed middle of the analysis block: from the end of the \<open>Published\<close> line,
  over the blank line and \<open>CONTENT SUMMARY:\<close>, up to \<open>- Part of\<close>.\<close>

definition analysis_text :: string where
  \<open>analysis_text =
     ''\<newline>\<newline>CONTENT SUMMARY:\<newline>''
     @ ''This YouTube video contains valuable information for content creators and ''
     @ ''marketers. While we couldn't extract the full transcript, the video appears to ''
     @ ''cover topics relevant to digital marketing, content strategy, or educational ''
     @ ''content based on the title and available metadata.\<newline>''
     @ ''\<newline>KEY ELEMENTS:\<newline>''
     @ ''- Professional video content\<newline>''
     @ ''- Likely contains actionable insights\<newline>''
     @ ''- Suitable for analysis and discussion\<newline>''
     @ ''- Part of ''\<close>

definition analysis_block :: "string \<Rightarrow> yt_vars \<Rightarrow> string" where
  "analysis_block vid v =
     trim (''\<newline>VIDEO ANALYSIS:\<newline>Title: ''
           @ or_else (videoTitle v) (''YouTube Video '' @ vid)
           @ ''\<newline>Channel: '' @ or_else (channelName v) ''Unknown Channel''
           @ ''\<newline>'' @ (if truthy (viewCount v) then ''Views: '' @ tpl (viewCount v) else [])
           @ ''\<newline>'' @ (if truthy (publishDate v) then ''Published: '' @ tpl (publishDate v) else [])
           @ analysis_text
           @ or_else (channelName v) ''established YouTube channel''
           @ ''\<newline>      '')"

definition final_content :: "string \<Rightarrow> yt_vars \<Rightarrow> string" where
  "final_content vid v = (if length (assemble v) < 200 then analysis_block vid v else assemble v)"

definition content_sources :: "yt_vars \<Rightarrow> string list" where
  "content_sources v =
     (if length (assemble v) < 200 then assembled_sources v @ [''Enhanced Analysis'']
      else assembled_sources v)"

text \<open>Reading \<open>.length\<close> of \<open>undefined\<close> throws a \<open>TypeError\<close>; the message is V8's.\<close>

definition length_of_undefined :: exn where
  \<open>length_of_undefined = Error ''Cannot read properties of undefined (reading 'length')''\<close>

definition insufficient_content :: string where
  "insufficient_content =
     ''Could not extract sufficient content from this YouTube video. The video may be private, have restricted access, or lack transcript data.''"

text \<open>
  The acceptance gate and the result.  \<open>hasDescription\<close> reads
  \<open>videoDescription.length\<close> without a guard, which throws when the platform API left the
  description undefined.
\<close>

definition synthesize :: "string \<Rightarrow> string \<Rightarrow> yt_vars \<Rightarrow> exn + ScrapingResult" where
  "synthesize url vid v =
     (let finalContent = final_content vid v in
      if finalContent = [] \<or> length (trim finalContent) < 50 then Inr (failure insufficient_content)
      else
        (case videoDescription v of
           None \<Rightarrow> Inl length_of_undefined
         | Some d \<Rightarrow>
             Inr \<lparr>success = True,
                  title = Some (or_else (videoTitle v) (''YouTube Video - '' @ vid)),
                  content = Some (trim finalContent),
                  metadata = Some
                    [(''videoId'', JStr vid),
                     (''channel'', jopt (channelName v)),
                     (''viewCount'', jopt (viewCount v)),
                     (''publishDate'', jopt (publishDate v)),
                     (''type'', JStr ''video''),
                     (''platform'', JStr ''YouTube''),
                     (''url'', JStr url),
                     (''contentLength'', JNum (length finalContent)),
                     (''wordCount'', JNum (split_count finalContent ws_run)),
                     (''sources'', JList (content_sources v)),
                     (''hasTranscript'', JBool (100 < length (transcript v))),
                     (''hasDescription'', JBool (20 < length d)),
                     (''extractionMethod'', JStr (join '', '' (content_sources v)))],
                  error = None\<rparr>))"

text \<open>The outer \<open>catch\<close> of the video chain.\<close>

definition exn_message :: "exn \<Rightarrow> string" where
  "exn_message e = (case e of Error m \<Rightarrow> m | NonError \<Rightarrow> ''Unknown error'')"

definition youtube_catch :: "exn \<Rightarrow> ScrapingResult" where
  "youtube_catch e =
     (let errorMessage = (case e of Error m \<Rightarrow> toLowerCase m | NonError \<Rightarrow> []) in
      if str_includes errorMessage ''transcript'' then
        failure ''This video does not have transcripts available. Try a different video with captions/subtitles enabled.''
      else if str_includes errorMessage ''private'' \<or> str_includes errorMessage ''unavailable'' then
        failure ''This video is private or unavailable. Please check the URL and try a public video.''
      else if str_includes errorMessage ''blocked'' \<or> str_includes errorMessage ''restricted'' then
        failure ''Access to this video is restricted. Try a different video or check regional availability.''
      else
        failure (''Enhanced YouTube scraping failed: '' @ exn_message e
                 @ ''. Please try a different video.''))"

text \<open>The variables after the four methods, in source order.\<close>

definition collect :: "server_env \<Rightarrow> string \<Rightarrow> string \<Rightarrow> yt_vars" where
  "collect env url vid =
     api_method env vid (oembed_method env url (page_method env vid (transcript_method env vid yt_init)))"

definition scrapeYouTubeContentEnhanced :: "server_env \<Rightarrow> string \<Rightarrow> ScrapingResult \<times> call list" where
  "scrapeYouTubeContentEnhanced env url =
     (case extractYouTubeVideoId url of
        None \<Rightarrow> (failure ''Invalid YouTube URL'', [])
      | Some vid \<Rightarrow>
          (let v = collect env url vid in
           (case synthesize url vid v of Inr r \<Rightarrow> r | Inl e \<Rightarrow> youtube_catch e, calls v)))"

section \<open>The social strategy\<close>

definition tiktok_text :: string where
  \<open>tiktok_text =
     ''\<newline>\<newline>This TikTok video contains visual and audio content that may include:\<newline>''
     @ ''- Trending music or sounds\<newline>''
     @ ''- Creative visual elements\<newline>''
     @ ''- Short-form entertainment or educational content\<newline>''
     @ ''- User-generated creative content\<newline>''
     @ ''- Potential viral trends or challenges\<newline>''
     @ ''\<newline>Note: TikTok content is primarily visual and audio-based. For detailed ''
     @ ''analysis, manual viewing is recommended as the platform's dynamic nature makes ''
     @ ''automated text extraction challenging.\<newline>''
     @ ''\<newline>The content likely follows TikTok's format of engaging, quick-consumption media ''
     @ ''designed for mobile viewing and social sharing.''\<close>

definition scrapeTikTokContent :: "string \<Rightarrow> ScrapingResult" where
  "scrapeTikTokContent url =
     \<lparr>success = True,
      title = Some ''TikTok Content'',
      content = Some (''TikTok video analysis from: '' @ url @ tiktok_text),
      metadata = Some
        [(''type'', JStr ''social''),
         (''platform'', JStr ''TikTok''),
         (''url'', JStr url),
         (''source'', JStr ''Enhanced Social Media Analysis''),
         (''contentType'', JStr ''video''),
         (''note'', JStr ''Visual/audio content - manual review recommended'')],
      error = None\<rparr>"

definition instagram_text :: string where
  \<open>instagram_text =
     ''\<newline>\<newline>This Instagram content may include:\<newline>''
     @ ''- High-quality visual imagery\<newline>''
     @ ''- Video content (Reels, Stories, or Posts)\<newline>''
     @ ''- Captions with hashtags and engagement elements\<newline>''
     @ ''- Visual storytelling elements\<newline>''
     @ ''- Brand or personal content\<newline>''
     @ ''\<newline>Note: Instagram content is heavily visual-focused. The platform emphasizes ''
     @ ''image and video content over text, making automated text extraction limited. ''
     @ ''Manual viewing provides the full content experience.\<newline>''
     @ ''\<newline>The post likely follows Instagram's aesthetic and engagement-driven format ''
     @ ''designed for visual consumption and social interaction.''\<close>

definition scrapeInstagramContent :: "string \<Rightarrow> ScrapingResult" where
  "scrapeInstagramContent url =
     \<lparr>success = True,
      title = Some ''Instagram Content'',
      content = Some (''Instagram post analysis from: '' @ url @ instagram_text),
      metadata = Some
        [(''type'', JStr ''social''),
         (''platform'', JStr ''Instagram''),
         (''url'', JStr url),
         (''source'', JStr ''Enhanced Social Media Analysis''),
         (''contentType'', JStr ''visual''),
         (''note'', JStr ''Visual content - manual review recommended'')],
      error = None\<rparr>"

section \<open>The article strategy chain\<close>

definition not_gt :: regex where
  "not_gt = NCls [Ch CHR ''>'']"

definition not_lt :: regex where
  "not_lt = NCls [Ch CHR ''<'']"

definition any_char :: regex where
  "any_char = Cls [WS, NonWS]"

text \<open>The title patterns, all with the \<open>i\<close> flag:
  \<^verbatim>\<open>/<title[^>]*>([^<]+)<\/title>/i\<close>,
  \<^verbatim>\<open>/<meta\s+property="og:title"\s+content="([^"]+)"/i\<close>,
  \<^verbatim>\<open>/<meta\s+name="title"\s+content="([^"]+)"/i\<close>,
  \<^verbatim>\<open>/<h1[^>]*>([^<]+)<\/h1>/i\<close>.\<close>

definition meta_pattern :: "string \<Rightarrow> regex" where
  \<open>meta_pattern attr =
     cat [Str ''<meta'', ws_run, Str attr, ws_run, Str ''content="'', Grp 1 (plus not_quote),
          Str ''"'']\<close>

definition json_pattern :: "string \<Rightarrow> regex" where
  \<open>json_pattern key =
     cat [Str (''"'' @ key @ ''":"''), Grp 1 (plus not_quote), Str ''"'']\<close>

definition art_title_patterns :: "(regex \<times> bool) list" where
  \<open>art_title_patterns =
     [(cat [Str ''<title'', Star not_gt, Lit CHR ''>'', Grp 1 (plus not_lt), Str ''</title>''], True),
      (meta_pattern ''property="og:title"'', True),
      (meta_pattern ''name="title"'', True),
      (cat [Str ''<h1'', Star not_gt, Lit CHR ''>'', Grp 1 (plus not_lt), Str ''</h1>''], True)]\<close>

text \<open>\<^verbatim>\<open>title = match[1].trim().replace(/\s+/g, ' '); if (title.length > 5) break;\<close>\<close>

fun art_title_loop :: "(regex \<times> bool) list \<Rightarrow> string \<Rightarrow> string \<Rightarrow> string" where
  "art_title_loop [] html cur = cur"
| "art_title_loop ((p, ic) # ps) html cur =
     (case group1 (str_match html p ic) of
        None \<Rightarrow> art_title_loop ps html cur
      | Some g \<Rightarrow>
          (let t = re_replace_all (trim g) ws_run False '' '' in
           if 5 < length t then t else art_title_loop ps html t))"

text \<open>The content patterns, each with its \<open>i\<close> and \<open>g\<close> flags:
  \<^verbatim>\<open>/"articleBody":"([^"]+)"/\<close>,
  \<^verbatim>\<open>/"text":"([^"]+)"/\<close>,
  \<^verbatim>\<open>/<article[^>]*>([\s\S]*?)<\/article>/i\<close>,
  \<^verbatim>\<open>/<main[^>]*>([\s\S]*?)<\/main>/i\<close>,
  \<^verbatim>\<open>/<div[^>]*class="[^"]*content[^"]*"[^>]*>([\s\S]*?)<\/div>/i\<close>,
  \<^verbatim>\<open>/<div[^>]*class="[^"]*article[^"]*"[^>]*>([\s\S]*?)<\/div>/i\<close>,
  \<^verbatim>\<open>/(<p[^>]*>[\s\S]*?<\/p>)/gi\<close>.\<close>

definition block_pattern :: "string \<Rightarrow> regex" where
  "block_pattern tag =
     cat [Str (''<'' @ tag), Star not_gt, Lit CHR ''>'', Grp 1 (LazyStar any_char),
          Str (''</'' @ tag @ ''>'')]"

definition div_class_pattern :: "string \<Rightarrow> regex" where
  \<open>div_class_pattern word =
     cat [Str ''<div'', Star not_gt, Str ''class="'', Star not_quote, Str word, Star not_quote,
          Lit CHR 0x22, Star not_gt, Lit CHR ''>'', Grp 1 (LazyStar any_char), Str ''</div>'']\<close>

definition paragraph_pattern :: regex where
  "paragraph_pattern =
     Grp 1 (cat [Str ''<p'', Star not_gt, Lit CHR ''>'', LazyStar any_char, Str ''</p>''])"

definition art_content_patterns :: "(regex \<times> bool \<times> bool) list" where
  "art_content_patterns =
     [(json_pattern ''articleBody'', False, False),
      (json_pattern ''text'', False, False),
      (block_pattern ''article'', True, False),
      (block_pattern ''main'', True, False),
      (div_class_pattern ''content'', True, False),
      (div_class_pattern ''article'', True, False),
      (paragraph_pattern, True, True)]"

text \<open>\<^verbatim>\<open>/<script[\s\S]*?<\/script>/gi\<close>, \<^verbatim>\<open>/<style[\s\S]*?<\/style>/gi\<close> and
  \<^verbatim>\<open>/<[^>]+>/g\<close>.\<close>

definition script_block :: regex where
  "script_block = cat [Str ''<script'', LazyStar any_char, Str ''</script>'']"

definition style_block :: regex where
  "style_block = cat [Str ''<style'', LazyStar any_char, Str ''</style>'']"

definition any_tag :: regex where
  "any_tag = cat [Lit CHR ''<'', plus not_gt, Lit CHR ''>'']"

definition clean_block :: "string \<Rightarrow> string" where
  "clean_block g =
     trim (re_replace_all
            (re_replace_all
              (re_replace_all (re_replace_all g script_block True []) style_block True [])
              any_tag False '' '')
            ws_run False '' '')"

definition join_paragraphs :: "string list \<Rightarrow> string" where
  "join_paragraphs ms =
     join ''\<newline>\<newline>''
       (filter (\<lambda>p. 20 < length p) (map (\<lambda>p. trim (re_replace_all p any_tag False [])) ms))"

text \<open>Reading \<open>matches[1]\<close> of a match without a first capture and calling \<open>replace\<close> on it
  would throw; the message is V8's.\<close>

definition replace_of_undefined :: exn where
  \<open>replace_of_undefined = Error ''Cannot read properties of undefined (reading 'replace')''\<close>

fun content_loop :: "(regex \<times> bool \<times> bool) list \<Rightarrow> string \<Rightarrow> string \<Rightarrow> exn + string" where
  "content_loop [] html cur = Inr cur"
| "content_loop ((p, ic, global) # ps) html cur =
     (if global then
        (case str_match_all html p ic of
           None \<Rightarrow> content_loop ps html cur
         | Some ms \<Rightarrow>
             (let c = join_paragraphs ms in
              if 200 < length c then Inr c else content_loop ps html c))
      else
        (case str_match html p ic of
           None \<Rightarrow> content_loop ps html cur
         | Some (whole, caps) \<Rightarrow>
             (case map_of caps 1 of
                None \<Rightarrow> Inl replace_of_undefined
              | Some g \<Rightarrow>
                  (let c = clean_block g in
                   if 200 < length c then Inr c else content_loop ps html c))))"

definition article_content :: "string \<Rightarrow> exn + string" where
  "article_content html = content_loop art_content_patterns html []"

text \<open>The value one pattern leaves in \<open>content\<close>: nothing when the pattern does not match,
  otherwise the joined paragraphs (\<open>g\<close> flag) or the cleaned first capture.  The loop goes on
  after a pattern that did not match or whose value has at most 200 code units.\<close>

fun candidate :: "regex \<times> bool \<times> bool \<Rightarrow> string \<Rightarrow> (exn + string) option" where
  "candidate (p, ic, global) html =
     (if global then
        (case str_match_all html p ic of
           None \<Rightarrow> None
         | Some ms \<Rightarrow> Some (Inr (join_paragraphs ms)))
      else
        (case str_match html p ic of
           None \<Rightarrow> None
         | Some (whole, caps) \<Rightarrow>
             (case map_of caps 1 of
                None \<Rightarrow> Some (Inl replace_of_undefined)
              | Some g \<Rightarrow> Some (Inr (clean_block g)))))"

definition passes :: "regex \<times> bool \<times> bool \<Rightarrow> string \<Rightarrow> bool" where
  "passes pat html =
     (case candidate pat html of
        None \<Rightarrow> True
      | Some (Inl e) \<Rightarrow> False
      | Some (Inr c) \<Rightarrow> length c \<le> 200)"

text \<open>The metadata patterns, all with the \<open>i\<close> flag.  The first pattern with a non-empty
  capture gives the value, trimmed.\<close>

definition author_patterns :: "(regex \<times> bool) list" where
  \<open>author_patterns =
     [(meta_pattern ''name="author"'', True),
      (meta_pattern ''property="article:author"'', True),
      (json_pattern ''author'', True)]\<close>

definition date_patterns :: "(regex \<times> bool) list" where
  \<open>date_patterns =
     [(meta_pattern ''property="article:published_time"'', True),
      (meta_pattern ''name="date"'', True),
      (json_pattern ''datePublished'', True)]\<close>

definition description_patterns :: "(regex \<times> bool) list" where
  \<open>description_patterns =
     [(meta_pattern ''name="description"'', True),
      (meta_pattern ''property="og:description"'', True)]\<close>

fun meta_value :: "(regex \<times> bool) list \<Rightarrow> string \<Rightarrow> string" where
  "meta_value [] html = []"
| "meta_value ((p, ic) # ps) html =
     (case group1 (str_match html p ic) of
        None \<Rightarrow> meta_value ps html
      | Some g \<Rightarrow> trim g)"

definition or_str :: "string \<Rightarrow> string \<Rightarrow> string" where
  "or_str s d = (if s = [] then d else s)"

definition no_meaningful_content :: string where
  "no_meaningful_content =
     ''Could not extract meaningful content from this article. The site may use heavy JavaScript or have access restrictions.''"

definition article_text :: "string \<Rightarrow> string \<Rightarrow> string \<Rightarrow> string \<Rightarrow> string \<Rightarrow> string \<Rightarrow> string" where
  "article_text title' author publishDate' host content' description =
     trim (''\<newline>ARTICLE ANALYSIS:\<newline>Title: '' @ or_str title' ''Untitled Article''
           @ ''\<newline>Author: '' @ or_str author ''Unknown Author''
           @ ''\<newline>'' @ (if publishDate' \<noteq> [] then ''Published: '' @ publishDate' else [])
           @ ''\<newline>Source: '' @ host
           @ ''\<newline>\<newline>CONTENT:\<newline>'' @ content'
           @ ''\<newline>\<newline>'' @ (if description \<noteq> [] then ''\<newline>SUMMARY: '' @ description else [])
           @ ''\<newline>    '')"

definition article_parse :: "server_env \<Rightarrow> string \<Rightarrow> string \<Rightarrow> exn + ScrapingResult" where
  "article_parse env url html =
     (let title' = art_title_loop art_title_patterns html [] in
      case article_content html of
        Inl e \<Rightarrow> Inl e
      | Inr content' \<Rightarrow>
          (let author = meta_value author_patterns html;
               publishDate' = meta_value date_patterns html;
               description = meta_value description_patterns html
           in if content' = [] \<or> length content' < 100 then Inr (failure no_meaningful_content)
              else
                (case url_hostname env url of
                   None \<Rightarrow> Inl (Error ''Invalid URL'')
                 | Some host \<Rightarrow>
                     (let finalContent = article_text title' author publishDate' host content' description in
                      Inr \<lparr>success = True,
                           title = Some (or_str title' ''Untitled Article''),
                           content = Some finalContent,
                           metadata = Some
                             [(''author'', JStr author),
                              (''publishDate'', JStr publishDate'),
                              (''description'', JStr description),
                              (''domain'', JStr host),
                              (''type'', JStr ''article''),
                              (''url'', JStr url),
                              (''contentLength'', JNum (length finalContent)),
                              (''wordCount'', JNum (split_count finalContent ws_run)),
                              (''source'', JStr ''Enhanced Web Scraping''),
                              (''hasMetadata'',
                                 JBool (author \<noteq> [] \<or> publishDate' \<noteq> [] \<or> description \<noteq> []))],
                           error = None\<rparr>))))"

definition article_body :: "server_env \<Rightarrow> string \<Rightarrow> exn + ScrapingResult" where
  "article_body env url =
     (case fetch env url of
        Inl e \<Rightarrow> Inl e
      | Inr resp \<Rightarrow>
          if \<not> ok resp then
            Inl (Error (''HTTP '' @ show_nat (status resp) @ '': '' @ statusText resp))
          else (case body_text resp of Inl e \<Rightarrow> Inl e | Inr html \<Rightarrow> article_parse env url html))"

definition article_catch :: "exn \<Rightarrow> ScrapingResult" where
  "article_catch e =
     (case e of
        Error m \<Rightarrow>
          if str_includes m ''timeout'' then
            failure ''The website took too long to respond. Try a different article or check your internet connection.''
          else if str_includes m ''403'' \<or> str_includes m ''forbidden'' then
            failure ''Access to this website is restricted. Try a different article from a more accessible source.''
          else failure (''Article scraping failed: '' @ m)
      | NonError \<Rightarrow> failure (''Article scraping failed: '' @ ''Unknown error''))"

definition scrapeArticleContentEnhanced :: "server_env \<Rightarrow> string \<Rightarrow> ScrapingResult \<times> call list" where
  "scrapeArticleContentEnhanced env url =
     (case article_body env url of Inr r \<Rightarrow> r | Inl e \<Rightarrow> article_catch e, [Fetch url])"

section \<open>The scrape route handler\<close>

text \<open>
  The request is what \<open>await request.json()\<close> and the destructuring of \<open>url\<close> and \<open>type\<close>
  give: a thrown value, or the two properties.  The reply is the status, the JSON body and
  the calls the handler made to the outside.
\<close>

record scrape_body =
  b_url :: "string option"
  b_type :: "string option"

record http_reply =
  r_status :: nat
  r_body :: ScrapingResult
  r_calls :: "call list"

definition dispatch :: "server_env \<Rightarrow> string \<Rightarrow> string \<Rightarrow> ScrapingResult \<times> call list" where
  "dispatch env contentType url =
     (if contentType = ''youtube'' then scrapeYouTubeContentEnhanced env url
      else if contentType = ''tiktok'' then (scrapeTikTokContent url, [])
      else if contentType = ''instagram'' then (scrapeInstagramContent url, [])
      else scrapeArticleContentEnhanced env url)"

definition POST :: "server_env \<Rightarrow> exn + scrape_body \<Rightarrow> http_reply" where
  "POST env request =
     (case request of
        Inl e \<Rightarrow>
          \<lparr>r_status = 500,
           r_body = failure (case e of Error m \<Rightarrow> m | NonError \<Rightarrow> ''Internal server error''),
           r_calls = []\<rparr>
      | Inr b \<Rightarrow>
          if \<not> truthy (b_url b) then
            \<lparr>r_status = 400, r_body = failure ''URL is required'', r_calls = []\<rparr>
          else
            (let url = tpl (b_url b);
                 contentType = or_else (b_type b) (getContentTypeFromUrl url);
                 result = dispatch env contentType url
             in \<lparr>r_status = 200, r_body = fst result, r_calls = snd result\<rparr>))"

section \<open>The client library\<close>

text \<open>
  What the client reads from outside.  Responses may change from one request to the next,
  so every network function takes the number of events (requests and waits) that came
  before it.  The events are recorded in order.
\<close>

datatype cevent = Request string | Wait nat

fun is_request :: "cevent \<Rightarrow> bool" where
  "is_request (Request u) = True"
| "is_request (Wait ms) = False"

record client_response =
  c_ok :: bool
  c_status :: nat
  c_statusText :: string
  c_text :: "exn + string"
  c_json :: "exn + ScrapingResult"

record transcribe_json =
  tr_status :: "string option"
  tr_id :: "string option"

record transcribe_response =
  t_ok :: bool
  t_statusText :: string
  t_json :: "exn + transcribe_json"

record status_json =
  sj_status :: "string option"
  sj_error :: "string option"
  sj_text :: "string option"
  sj_audio_duration :: "nat option"
  sj_highlights :: "string list option"
  sj_sentiment :: "string option"
  sj_entities :: "string list option"

record custom_json =
  cj_title :: "string option"
  cj_content :: "string option"
  cj_text :: "string option"
  cj_type :: "string option"
  cj_author :: "string option"
  cj_published_date :: "string option"
  cj_description :: "string option"
  cj_thumbnails :: "string list option"
  cj_metadata :: "(string \<times> jv) list option"

record custom_response =
  cu_ok :: bool
  cu_statusText :: string
  cu_json :: "exn + custom_json"

record client_env =
  window_origin :: "string option"
  assemblyai_key :: "string option"
  custom_api_key :: "string option"
  custom_api_url :: "string option"
  post_scrape :: "nat \<Rightarrow> string \<Rightarrow> string \<Rightarrow> string \<Rightarrow> exn + client_response"
  post_transcript :: "nat \<Rightarrow> string \<Rightarrow> exn + transcribe_response"
  get_transcript :: "nat \<Rightarrow> string \<Rightarrow> exn + (exn + status_json)"
  post_custom :: "nat \<Rightarrow> string \<Rightarrow> string \<Rightarrow> exn + custom_response"

text \<open>
  \<open>window_origin\<close>: \<open>window.location.origin\<close> in a browser, \<open>None\<close> elsewhere.
  \<open>post_scrape t endpoint url type\<close>: the POST of \<open>{url, type}\<close> to the scrape route.
  \<open>post_transcript t audio_url\<close> and \<open>get_transcript t id\<close>: the transcription service
  (the second gives the result of \<open>fetch\<close> and then of \<open>json()\<close>).
  \<open>post_custom t endpoint url\<close>: the custom scraper.
\<close>

subsection \<open>The retry envelope\<close>

definition maxRetries :: nat where
  "maxRetries = 3"

definition api_endpoint :: "client_env \<Rightarrow> string" where
  "api_endpoint env =
     (case window_origin env of Some origin \<Rightarrow> origin | None \<Rightarrow> ''http://localhost:9002'')
     @ ''/api/scrape''"

text \<open>The body of the \<open>try\<close> of one attempt: the returned data, or the thrown value.\<close>

definition attempt_once :: "client_env \<Rightarrow> nat \<Rightarrow> string \<Rightarrow> string \<Rightarrow> exn + ScrapingResult" where
  "attempt_once env t url ty =
     (case post_scrape env t (api_endpoint env) url ty of
        Inl e \<Rightarrow> Inl e
      | Inr resp \<Rightarrow>
          if \<not> c_ok resp then
            (case c_text resp of
               Inl e \<Rightarrow> Inl e
             | Inr errorText \<Rightarrow>
                 Inl (Error (''HTTP '' @ show_nat (c_status resp) @ '': '' @ c_statusText resp
                             @ '' - '' @ errorText)))
          else c_json resp)"

text \<open>\<open>Math.min(1000 * Math.pow(2, attempt - 1), 5000)\<close>.\<close>

definition waitTime :: "nat \<Rightarrow> nat" where
  "waitTime attempt = min (1000 * 2 ^ (attempt - 1)) 5000"

text \<open>
  The loop \<open>for (attempt = 1; attempt <= maxRetries; attempt++)\<close> with the statements after
  it.  \<open>lastError\<close> holds the message of the last error (\<open>None\<close> for \<open>null\<close>); a thrown
  value that is not an \<open>Error\<close> is replaced by \<open>new Error('Unknown error')\<close>.
\<close>

function scrape_attempts ::
  "client_env \<Rightarrow> string \<Rightarrow> string \<Rightarrow> nat \<Rightarrow> string option \<Rightarrow> cevent list
     \<Rightarrow> ScrapingResult \<times> cevent list" where
  "scrape_attempts env url ty attempt lastError tr =
     (if attempt \<le> maxRetries then
        (let tr1 = tr @ [Request (api_endpoint env)] in
         case attempt_once env (length tr) url ty of
           Inr data \<Rightarrow> (data, tr1)
         | Inl e \<Rightarrow>
             scrape_attempts env url ty (attempt + 1) (Some (exn_message e))
               (if attempt < maxRetries then tr1 @ [Wait (waitTime attempt)] else tr1))
      else
        (failure (''Scraping failed after '' @ show_nat maxRetries @ '' attempts: ''
                  @ or_else lastError ''Unknown error''),
         tr))"
  by pat_completeness auto
termination
  by (relation "measure (\<lambda>(env, url, ty, attempt, lastError, tr). Suc maxRetries - attempt)") auto

declare scrape_attempts.simps [simp del]

definition scrapeContent ::
  "client_env \<Rightarrow> string \<Rightarrow> string \<Rightarrow> cevent list \<Rightarrow> ScrapingResult \<times> cevent list" where
  "scrapeContent env url ty tr = scrape_attempts env url ty 1 None tr"

subsection \<open>The transcription service\<close>

definition maxAttempts :: nat where
  "maxAttempts = 30"

definition transcript_endpoint :: string where
  "transcript_endpoint = ''https://api.assemblyai.com/v2/transcript''"

text \<open>\<open>Math.round(audio_duration / 60)\<close> for a duration in whole seconds.\<close>

definition duration_text :: "nat option \<Rightarrow> jv" where
  "duration_text d =
     (case d of
        None \<Rightarrow> JUndef
      | Some n \<Rightarrow> if n = 0 then JUndef else JStr (show_nat ((n + 30) div 60) @ '' minutes''))"

definition jlist :: "string list option \<Rightarrow> jv" where
  "jlist v = (case v of None \<Rightarrow> JUndef | Some xs \<Rightarrow> JList xs)"

definition transcript_result :: "status_json \<Rightarrow> ScrapingResult" where
  "transcript_result sd =
     \<lparr>success = True,
      title = Some ''YouTube Video Transcript'',
      content = sj_text sd,
      metadata = Some
        [(''type'', JStr ''video''),
         (''duration'', duration_text (sj_audio_duration sd)),
         (''highlights'', jlist (sj_highlights sd)),
         (''sentiment'', jopt (sj_sentiment sd)),
         (''entities'', jlist (sj_entities sd)),
         (''description'', JStr ''Transcript generated by AssemblyAI'')],
      error = None\<rparr>"

text \<open>
  The polling loop \<open>while (transcriptData.status !== 'completed' && attempts < maxAttempts)\<close>
  with the \<open>throw\<close> after it: the returned result or the thrown value.
\<close>

function poll ::
  "client_env \<Rightarrow> transcribe_json \<Rightarrow> nat \<Rightarrow> cevent list \<Rightarrow> (exn + ScrapingResult) \<times> cevent list" where
  "poll env td attempts tr =
     (if tr_status td \<noteq> Some ''completed'' \<and> attempts < maxAttempts then
        (let tr1 = tr @ [Wait 10000];
             tr2 = tr1 @ [Request (transcript_endpoint @ ''/'' @ tpl (tr_id td))]
         in case get_transcript env (length tr1) (tpl (tr_id td)) of
              Inl e \<Rightarrow> (Inl e, tr2)
            | Inr (Inl e) \<Rightarrow> (Inl e, tr2)
            | Inr (Inr sd) \<Rightarrow>
                if sj_status sd = Some ''error'' then
                  (Inl (Error (''AssemblyAI transcription failed: '' @ tpl (sj_error sd))), tr2)
                else if sj_status sd = Some ''completed'' then (Inr (transcript_result sd), tr2)
                else poll env td (attempts + 1) tr2)
      else (Inl (Error ''AssemblyAI transcription timed out''), tr))"
  by pat_completeness auto
termination
  by (relation "measure (\<lambda>(env, td, attempts, tr). maxAttempts - attempts)") auto

declare poll.simps [simp del]

text \<open>Everything thrown inside the \<open>try\<close> ends in the fallback to \<open>scrapeContent\<close>.\<close>

definition scrapeWithAssemblyAI ::
  "client_env \<Rightarrow> string \<Rightarrow> cevent list \<Rightarrow> ScrapingResult \<times> cevent list" where
  "scrapeWithAssemblyAI env url tr =
     (if \<not> truthy (lib_extractYouTubeVideoId url) then (failure ''Invalid YouTube URL'', tr)
      else if \<not> truthy (assemblyai_key env) then scrapeContent env url ''youtube'' tr
      else
        (let tr1 = tr @ [Request transcript_endpoint] in
         case post_transcript env (length tr)
                (''https://www.youtube.com/watch?v='' @ tpl (lib_extractYouTubeVideoId url)) of
           Inl e \<Rightarrow> scrapeContent env url ''youtube'' tr1
         | Inr resp \<Rightarrow>
             if \<not> t_ok resp then scrapeContent env url ''youtube'' tr1
             else
               (case t_json resp of
                  Inl e \<Rightarrow> scrapeContent env url ''youtube'' tr1
                | Inr td \<Rightarrow>
                    (case poll env td 0 tr1 of
                       (Inr r, tr2) \<Rightarrow> (r, tr2)
                     | (Inl e, tr2) \<Rightarrow> scrapeContent env url ''youtube'' tr2))))"

subsection \<open>The custom scraper\<close>

text \<open>An object spread \<open>{...base, ...extra}\<close>: a property of \<open>extra\<close> replaces the one of the
  same name or comes after the others.\<close>

fun obj_put :: "string \<Rightarrow> jv \<Rightarrow> (string \<times> jv) list \<Rightarrow> (string \<times> jv) list" where
  "obj_put k v [] = [(k, v)]"
| "obj_put k v ((k', v') # m) = (if k = k' then (k, v) # m else (k', v') # obj_put k v m)"

definition obj_spread :: "(string \<times> jv) list \<Rightarrow> (string \<times> jv) list option \<Rightarrow> (string \<times> jv) list" where
  "obj_spread base extra =
     (case extra of None \<Rightarrow> base | Some ps \<Rightarrow> foldl (\<lambda>m (k, v). obj_put k v m) base ps)"

definition custom_result :: "string \<Rightarrow> custom_json \<Rightarrow> ScrapingResult" where
  "custom_result url data =
     \<lparr>success = True,
      title = Some (or_else (cj_title data) ''Scraped Content''),
      content = Some (or_else (cj_content data) (or_else (cj_text data) [])),
      metadata = Some
        (obj_spread
          [(''type'', JStr (or_else (cj_type data) (getContentType url))),
           (''author'', jopt (cj_author data)),
           (''publishedDate'', jopt (cj_published_date data)),
           (''description'', jopt (cj_description data)),
           (''thumbnails'', jlist (cj_thumbnails data))]
          (cj_metadata data)),
      error = None\<rparr>"

definition scrapeWithCustomAPI ::
  "client_env \<Rightarrow> string \<Rightarrow> cevent list \<Rightarrow> ScrapingResult \<times> cevent list" where
  "scrapeWithCustomAPI env url tr =
     (if \<not> (truthy (custom_api_key env) \<and> truthy (custom_api_url env)) then
        scrapeContent env url (getContentType url) tr
      else
        (let tr1 = tr @ [Request (tpl (custom_api_url env))] in
         case post_custom env (length tr) (tpl (custom_api_url env)) url of
           Inl e \<Rightarrow> scrapeContent env url (getContentType url) tr1
         | Inr resp \<Rightarrow>
             if \<not> cu_ok resp then scrapeContent env url (getContentType url) tr1
             else
               (case cu_json resp of
                  Inl e \<Rightarrow> scrapeContent env url (getContentType url) tr1
                | Inr data \<Rightarrow> (custom_result url data, tr1))))"

subsection \<open>The enhanced scraper\<close>

definition try_custom ::
  "client_env \<Rightarrow> string \<Rightarrow> string \<Rightarrow> cevent list \<Rightarrow> ScrapingResult \<times> cevent list" where
  "try_custom env url ty tr =
     (if truthy (custom_api_key env) \<and> truthy (custom_api_url env) then
        (case scrapeWithCustomAPI env url tr of
           (customResult, tr1) \<Rightarrow>
             if success customResult then (customResult, tr1) else scrapeContent env url ty tr1)
      else scrapeContent env url ty tr)"

definition scrapeContentEnhanced ::
  "client_env \<Rightarrow> string \<Rightarrow> string \<Rightarrow> cevent list \<Rightarrow> ScrapingResult \<times> cevent list" where
  "scrapeContentEnhanced env url ty tr =
     (if ty = ''youtube'' \<and> truthy (assemblyai_key env) then
        (case scrapeWithAssemblyAI env url tr of
           (assemblyResult, tr1) \<Rightarrow>
             if success assemblyResult then (assemblyResult, tr1) else try_custom env url ty tr1)
      else try_custom env url ty tr)"

subsection \<open>The client served by the route\<close>

text \<open>
  The response the client sees when its request reaches the scrape route: the route's
  status and JSON body.  \<open>reason\<close> gives the status text and \<open>render\<close> the body text; the
  request body is \<open>JSON.stringify({url, type})\<close> of two strings.
\<close>

definition served :: "(nat \<Rightarrow> string) \<Rightarrow> (ScrapingResult \<Rightarrow> string) \<Rightarrow> http_reply \<Rightarrow> client_response" where
  "served reason render reply =
     \<lparr>c_ok = (200 \<le> r_status reply \<and> r_status reply \<le> 299),
      c_status = r_status reply,
      c_statusText = reason (r_status reply),
      c_text = Inr (render (r_body reply)),
      c_json = Inr (r_body reply)\<rparr>"

definition route_request :: "string \<Rightarrow> string \<Rightarrow> exn + scrape_body" where
  "route_request url ty = Inr \<lparr>b_url = Some url, b_type = Some ty\<rparr>"

section \<open>Properties of results\<close>

text \<open>A result carries content that is non-empty and at least 50 code units long after
  trimming.\<close>

definition content_ok :: "ScrapingResult \<Rightarrow> bool" where
  "content_ok r = (case content r of None \<Rightarrow> False | Some c \<Rightarrow> c \<noteq> [] \<and> 50 \<le> length (trim c))"

text \<open>A result carries a non-empty error message and neither content nor title.\<close>

definition failure_shape :: "ScrapingResult \<Rightarrow> bool" where
  "failure_shape r =
     ((case error r of None \<Rightarrow> False | Some m \<Rightarrow> m \<noteq> []) \<and> content r = None \<and> title r = None)"

text \<open>Every request of the client to the scrape endpoint either fails in transport or is
  answered by the route handler, in some state of the outside world.\<close>

definition served_by_route :: "client_env \<Rightarrow> bool" where
  "served_by_route env =
     (\<forall>t endpoint url ty.
        case post_scrape env t endpoint url ty of
          Inl e \<Rightarrow> True
        | Inr resp \<Rightarrow> (\<exists>senv reason render. resp = served reason render (POST senv (route_request url ty))))"

section \<open>Example environments\<close>

text \<open>A server for which every call to the outside fails, and a client outside a browser,
  without keys, whose requests to the scrape endpoint are answered by the route handler
  on that server.  \<open>error_body\<close> is the body text of a failure reply whose message needs no
  escaping.\<close>

definition offline_server :: server_env where
  "offline_server =
     \<lparr>transcript_module = False,
      fetchTranscript = (\<lambda>vid lang. Inl (Error ''fetch failed'')),
      fetch = (\<lambda>u. Inl (Error ''fetch failed'')),
      youtube_api_key = None,
      url_hostname = (\<lambda>u. None)\<rparr>"

definition reason_phrase :: "nat \<Rightarrow> string" where
  "reason_phrase n =
     (if n = 200 then ''OK'' else if n = 400 then ''Bad Request''
      else if n = 500 then ''Internal Server Error'' else [])"

definition error_body :: "ScrapingResult \<Rightarrow> string" where
  \<open>error_body r = ''{"success":false,"error":"'' @ tpl (error r) @ ''"}''\<close>

definition local_client :: client_env where
  "local_client =
     \<lparr>window_origin = None,
      assemblyai_key = None,
      custom_api_key = None,
      custom_api_url = None,
      post_scrape = (\<lambda>t endpoint url ty.
         Inr (served reason_phrase error_body (POST offline_server (route_request url ty)))),
      post_transcript = (\<lambda>t audio. Inl (Error ''fetch failed'')),
      get_transcript = (\<lambda>t ident. Inl (Error ''fetch failed'')),
      post_custom = (\<lambda>t endpoint url. Inl (Error ''fetch failed''))\<rparr>"

text \<open>A client with a custom scraper configured, whose reply is an object without any of
  the properties the client reads.\<close>

definition empty_custom_json :: custom_json where
  "empty_custom_json =
     \<lparr>cj_title = None, cj_content = None, cj_text = None, cj_type = None, cj_author = None,
      cj_published_date = None, cj_description = None, cj_thumbnails = None, cj_metadata = None\<rparr>"

definition custom_client :: client_env where
  "custom_client =
     local_client\<lparr>custom_api_key := Some ''secret'',
                   custom_api_url := Some ''https://scraper.example/api'',
                   post_custom := (\<lambda>t endpoint url.
                      Inr \<lparr>cu_ok = True, cu_statusText = ''OK'', cu_json = Inr empty_custom_json\<rparr>)\<rparr>"

text \<open>A client whose every request fails in transport with the same error.\<close>

definition broken_client :: client_env where
  "broken_client = local_client\<lparr>post_scrape := (\<lambda>t endpoint url ty. Inl (Error ''fetch failed''))\<rparr>"

text \<open>Replies whose body the code reads as a page, and as an oEmbed object.\<close>

definition html_response :: "string \<Rightarrow> response" where
  "html_response html =
     \<lparr>ok = True, status = 200, statusText = ''OK'', body_text = Inr html,
      body_oembed = Inl (Error ''Unexpected token''), body_videos = Inl (Error ''Unexpected token'')\<rparr>"

definition oembed_response :: "oembed_json \<Rightarrow> response" where
  "oembed_response oe =
     \<lparr>ok = True, status = 200, statusText = ''OK'', body_text = Inl NonError,
      body_oembed = Inr oe, body_videos = Inl NonError\<rparr>"

text \<open>A server without transcript library and API key, for which the watch page of the
  video \<open>dQw4w9WgXcQ\<close> is \<open>page\<close> (when given) and the oEmbed endpoint answers \<open>oe\<close>.\<close>

definition video_url :: string where
  "video_url = ''https://youtu.be/dQw4w9WgXcQ''"

definition video_server :: "string option \<Rightarrow> oembed_json \<Rightarrow> server_env" where
  "video_server page oe =
     \<lparr>transcript_module = False,
      fetchTranscript = (\<lambda>vid lang. Inl (Error ''fetch failed'')),
      fetch = (\<lambda>u. if u = watch_url ''dQw4w9WgXcQ'' then
                       (case page of None \<Rightarrow> Inl (Error ''fetch failed'')
                                   | Some html \<Rightarrow> Inr (html_response html))
                     else if startsWith u ''https://www.youtube.com/oembed?'' then Inr (oembed_response oe)
                     else Inl (Error ''fetch failed'')),
      youtube_api_key = None,
      url_hostname = (\<lambda>u. None)\<rparr>"

text \<open>The page scrape finds the title \<open>12K\<close> and oEmbed has the real one.\<close>

definition weak_title_server :: server_env where
  "weak_title_server =
     video_server (Some ''<title>12K - YouTube</title>'')
       \<lparr>oe_title = Some ''Real Title'', oe_author_name = Some ''Real Channel''\<rparr>"

text \<open>The page cannot be fetched and oEmbed gives a title of 200 spaces.\<close>

definition blank_title_server :: server_env where
  "blank_title_server =
     video_server None \<lparr>oe_title = Some (replicate 200 CHR '' ''), oe_author_name = None\<rparr>"

text \<open>A server on which every page is one paragraph of \<open>n\<close> letters.\<close>

definition paragraph_doc :: "nat \<Rightarrow> string" where
  "paragraph_doc n = ''<p>'' @ replicate n CHR ''a'' @ ''</p>''"

definition paragraph_server :: "nat \<Rightarrow> server_env" where
  "paragraph_server n =
     \<lparr>transcript_module = False,
      fetchTranscript = (\<lambda>vid lang. Inl (Error ''fetch failed'')),
      fetch = (\<lambda>u. Inr (html_response (paragraph_doc n))),
      youtube_api_key = None,
      url_hostname = (\<lambda>u. Some ''example.com'')\<rparr>"

text \<open>A server on which every page is a \<open>main\<close> block of \<open>n\<close> letters followed by an empty
  paragraph.\<close>

definition main_doc :: "nat \<Rightarrow> string" where
  "main_doc n = ''<main>'' @ replicate n CHR ''a'' @ ''<p></p></main>''"

definition main_server :: "nat \<Rightarrow> server_env" where
  "main_server n = paragraph_server 0\<lparr>fetch := (\<lambda>u. Inr (html_response (main_doc n)))\<rparr>"

section \<open>Verification\<close>

subsection \<open>Evaluation\<close>

text \<open>Case folding by table and on the bits agree on every code unit; the second form is
  the one used to evaluate.\<close>

lemma upper_bits_table: "\<forall>c. upper_ascii c = upper_bits c"
  by code_simp

lemma upper_ascii_bits [code]: "upper_ascii c = upper_bits c"
  using upper_bits_table by blast

subsection \<open>Strings\<close>

lemma startsWith_Nil [simp]: "startsWith [] p = (p = [])"
  by (cases p) simp_all

lemma startsWith_append_self [simp]: "startsWith (p @ s) p"
  by (induction p) simp_all

lemma str_includes_Nil [simp]: "str_includes s []"
  by (induction s) simp_all

lemma startsWith_drop_includes: "startsWith (drop n s) p \<Longrightarrow> str_includes s p"
proof (induction s arbitrary: n)
  case Nil
  then show ?case by simp
next
  case (Cons c s)
  show ?case
  proof (cases n)
    case 0
    with Cons.prems show ?thesis by simp
  next
    case (Suc m)
    with Cons.prems have "startsWith (drop m s) p" by simp
    then have "str_includes s p" by (rule Cons.IH)
    then show ?thesis by simp
  qed
qed

lemma str_includes_middle: "str_includes (a @ b @ c) b"
  using startsWith_drop_includes [of "length a" "a @ b @ c" b] by simp

lemma str_includes_suffix: "str_includes (a @ b) b"
  using str_includes_middle [of a b "[]"] by simp

lemma startsWith_append: "startsWith s (p @ q) \<Longrightarrow> startsWith s p"
  by (induction s p rule: startsWith.induct) simp_all

lemma not_includes_not_startsWith:
  "\<not> str_includes url p \<Longrightarrow> \<not> startsWith (drop n url) (p @ q)"
  using startsWith_append startsWith_drop_includes by blast

subsection \<open>Trimming\<close>

lemma dropWhile_keeps_core:
  assumes "core \<noteq> []" "\<not> P (hd core)"
  shows "\<exists>pre'. dropWhile P (pre @ core @ post) = pre' @ core @ post"
proof (induction pre)
  case Nil
  from assms obtain c cs where "core = c # cs" "\<not> P c" by (cases core) auto
  then have "dropWhile P ([] @ core @ post) = [] @ core @ post" by simp
  then show ?case by blast
next
  case (Cons x pre)
  show ?case
  proof (cases "P x")
    case True
    with Cons show ?thesis by simp
  next
    case False
    then have "dropWhile P ((x # pre) @ core @ post) = (x # pre) @ core @ post" by simp
    then show ?thesis by blast
  qed
qed

lemma trim_keeps_core:
  assumes "core \<noteq> []" "\<not> is_ws (hd core)" "\<not> is_ws (last core)"
  shows "\<exists>a b. trim (pre @ core @ post) = a @ core @ b"
proof -
  from dropWhile_keeps_core [of core is_ws pre post] assms(1,2)
  obtain pre' where 1: "dropWhile is_ws (pre @ core @ post) = pre' @ core @ post" by blast
  have "rev core \<noteq> []" "\<not> is_ws (hd (rev core))"
    using assms by (simp_all add: hd_rev)
  from dropWhile_keeps_core [of "rev core" is_ws "rev post" "rev pre'"] this
  obtain post' where 2: "dropWhile is_ws (rev post @ rev core @ rev pre') = post' @ rev core @ rev pre'"
    by blast
  have "trim (pre @ core @ post) = pre' @ core @ rev post'"
    unfolding trim_def 1 using 2 by simp
  then show ?thesis by blast
qed

lemma trim_Nil [simp]: "trim [] = []"
  by (simp add: trim_def)

lemma trim_length_core:
  assumes "core \<noteq> []" "\<not> is_ws (hd core)" "\<not> is_ws (last core)"
  shows "length core \<le> length (trim (pre @ core @ post))"
  using trim_keeps_core [OF assms, of pre post] by auto

lemma trim_trim: "trim (trim s) = trim s"
proof -
  define u where "u = dropWhile is_ws s"
  define w where "w = dropWhile is_ws (rev u)"
  have t: "trim s = rev w" by (simp add: trim_def u_def w_def)
  have "dropWhile is_ws (rev w) = rev w"
  proof (cases "w = []")
    case True
    then show ?thesis by simp
  next
    case False
    then have "rev u \<noteq> []" by (auto simp: w_def)
    have "last w = last (rev u)"
      using False unfolding w_def by (metis dropWhile_eq_Nil_conv last_appendR takeWhile_dropWhile_id)
    also have "\<dots> = hd u" using \<open>rev u \<noteq> []\<close> by (simp add: last_rev)
    finally have "last w = hd u" .
    moreover have "\<not> is_ws (hd u)"
      using \<open>rev u \<noteq> []\<close> unfolding u_def by (metis hd_dropWhile rev_is_Nil_conv)
    ultimately have "\<not> is_ws (hd (rev w))" using False by (simp add: hd_rev)
    with False show ?thesis by (cases "rev w") auto
  qed
  moreover have "dropWhile is_ws w = w" by (simp add: w_def)
  ultimately have "trim (rev w) = rev w" by (simp add: trim_def)
  then show ?thesis by (simp add: t)
qed

subsection \<open>Content of successful results\<close>

lemma failure_not_success [simp]: "\<not> success (failure msg)"
  by (simp add: failure_def)

lemma failure_shape_failure [simp]: "failure_shape (failure msg) = (msg \<noteq> [])"
  by (simp add: failure_shape_def failure_def)

lemma content_ok_core:
  assumes "core \<noteq> []" "\<not> is_ws (hd core)" "\<not> is_ws (last core)" "50 \<le> length core"
    "content r = Some (pre @ core @ post)"
  shows "content_ok r"
  using assms trim_length_core [OF assms(1,2,3), of pre post]
  by (auto simp: content_ok_def)

lemma tiktok_text_facts:
  "tiktok_text \<noteq> []" "last tiktok_text = CHR ''.''" "50 \<le> length tiktok_text"
  by code_simp+

lemma tiktok_content_ok: "content_ok (scrapeTikTokContent url)"
proof -
  define core where "core = ''TikTok video analysis from: '' @ url @ tiktok_text"
  have l: "\<not> is_ws (last core)"
    using tiktok_text_facts(1,2) by (simp add: core_def is_ws_def)
  have h: "\<not> is_ws (hd core)" "core \<noteq> []" by (simp_all add: core_def is_ws_def)
  have n: "50 \<le> length core" using tiktok_text_facts(3) by (simp add: core_def)
  have c: "content (scrapeTikTokContent url) = Some ([] @ core @ [])"
    by (simp add: scrapeTikTokContent_def core_def)
  from content_ok_core [OF h(2) h(1) l n c] show ?thesis .
qed

lemma instagram_text_facts:
  "instagram_text \<noteq> []" "last instagram_text = CHR ''.''" "50 \<le> length instagram_text"
  by code_simp+

lemma instagram_content_ok: "content_ok (scrapeInstagramContent url)"
proof -
  define core where "core = ''Instagram post analysis from: '' @ url @ instagram_text"
  have l: "\<not> is_ws (last core)"
    using instagram_text_facts(1,2) by (simp add: core_def is_ws_def)
  have h: "\<not> is_ws (hd core)" "core \<noteq> []" by (simp_all add: core_def is_ws_def)
  have n: "50 \<le> length core" using instagram_text_facts(3) by (simp add: core_def)
  have c: "content (scrapeInstagramContent url) = Some ([] @ core @ [])"
    by (simp add: scrapeInstagramContent_def core_def)
  from content_ok_core [OF h(2) h(1) l n c] show ?thesis .
qed

lemma synthesize_content_ok:
  assumes "synthesize url vid v = Inr r" "success r"
  shows "content_ok r"
proof -
  let ?fc = "final_content vid v"
  have ok: "\<not> (?fc = [] \<or> length (trim ?fc) < 50)"
    using assms by (auto simp: synthesize_def Let_def split: if_splits)
  then have "content r = Some (trim ?fc)"
    using assms by (auto simp: synthesize_def Let_def split: if_splits option.splits)
  moreover have "trim ?fc \<noteq> []" using ok by auto
  ultimately show ?thesis using ok by (simp add: content_ok_def trim_trim)
qed

lemma youtube_catch_fails [simp]: "\<not> success (youtube_catch e)"
  by (simp add: youtube_catch_def Let_def)

lemma youtube_content_ok:
  assumes "success (fst (scrapeYouTubeContentEnhanced env url))"
  shows "content_ok (fst (scrapeYouTubeContentEnhanced env url))"
  using assms synthesize_content_ok
  by (auto simp: scrapeYouTubeContentEnhanced_def Let_def split: option.splits sum.splits)

lemma article_text_core:
  "\<exists>a b core. article_text t au p h c d = a @ core @ b \<and> core \<noteq> [] \<and> \<not> is_ws (hd core)
      \<and> \<not> is_ws (last core) \<and> 50 \<le> length core"
proof -
  define core where "core = ''ARTICLE ANALYSIS:\<newline>Title: '' @ or_str t ''Untitled Article''
           @ ''\<newline>Author: '' @ or_str au ''Unknown Author''
           @ ''\<newline>'' @ (if p \<noteq> [] then ''Published: '' @ p else [])
           @ ''\<newline>Source: '' @ h
           @ ''\<newline>\<newline>CONTENT:''"
  define post where "post = ''\<newline>'' @ c
           @ ''\<newline>\<newline>'' @ (if d \<noteq> [] then ''\<newline>SUMMARY: '' @ d else [])
           @ ''\<newline>    ''"
  have props: "core \<noteq> []" "\<not> is_ws (hd core)" "\<not> is_ws (last core)" "50 \<le> length core"
    by (simp_all add: core_def is_ws_def)
  have "article_text t au p h c d = trim (''\<newline>'' @ core @ post)"
    by (simp add: article_text_def core_def post_def)
  with trim_keeps_core [OF props(1,2,3), of "''\<newline>''" post] props show ?thesis
    by metis
qed

lemma article_parse_content_ok:
  assumes "article_parse env url html = Inr r" "success r"
  shows "content_ok r"
proof -
  from assms obtain t au p h c d where c: "content r = Some (article_text t au p h c d)"
    by (auto simp: article_parse_def Let_def split: sum.splits if_splits option.splits)
  from article_text_core [of t au p h c d] obtain a b core where
    "article_text t au p h c d = a @ core @ b" "core \<noteq> []" "\<not> is_ws (hd core)"
    "\<not> is_ws (last core)" "50 \<le> length core" by blast
  with c content_ok_core [of core r a b] show ?thesis by simp
qed

lemma article_catch_fails [simp]: "\<not> success (article_catch e)"
  by (simp add: article_catch_def split: exn.splits)

lemma article_content_ok:
  assumes "success (fst (scrapeArticleContentEnhanced env url))"
  shows "content_ok (fst (scrapeArticleContentEnhanced env url))"
  using assms article_parse_content_ok
  by (auto simp: scrapeArticleContentEnhanced_def article_body_def split: sum.splits if_splits)

lemma dispatch_cases:
  "dispatch env ct url = scrapeYouTubeContentEnhanced env url
   \<or> dispatch env ct url = (scrapeTikTokContent url, [])
   \<or> dispatch env ct url = (scrapeInstagramContent url, [])
   \<or> dispatch env ct url = scrapeArticleContentEnhanced env url"
  unfolding dispatch_def by presburger

lemma dispatch_content_ok:
  assumes "success (fst (dispatch env ct url))"
  shows "content_ok (fst (dispatch env ct url))"
  using dispatch_cases [of env ct url] assms youtube_content_ok [of env url]
    article_content_ok [of env url] tiktok_content_ok [of url] instagram_content_ok [of url]
  by (elim disjE) simp_all

lemma POST_content_ok:
  assumes "success (r_body (POST env req))"
  shows "content_ok (r_body (POST env req))"
  using assms dispatch_content_ok
  by (auto simp: POST_def Let_def split: sum.splits if_splits)

subsection \<open>Patterns that start with a literal text\<close>

lemma lit_prefix_False: "lit_prefix False s p = startsWith s p"
  by (induction s p rule: startsWith.induct) (simp_all add: same_char_def eq_commute)

lemma rx_Str_fails:
  "\<not> startsWith s p \<Longrightarrow> rx (Str p) False (prev, s, caps) k = None"
  by (simp add: lit_prefix_False)

lemma search_None:
  "(\<And>n prev. match_at r ic prev (drop n s) = None) \<Longrightarrow> search r ic prev s = None"
proof (induction s arbitrary: prev)
  case Nil
  show ?case using Nil.prems [where n=0] by simp
next
  case (Cons c s)
  have here: "match_at r ic prev (c # s) = None" using Cons.prems [where n=0] by simp
  have "\<And>n prev. match_at r ic prev (drop n s) = None"
    using Cons.prems [where n="Suc _"] by simp
  then have "search r ic (Some c) s = None" by (rule Cons.IH)
  with here show ?case by simp
qed

lemma lib1_no_match:
  assumes "\<not> str_includes url ''youtube.com/watch?''" "\<not> str_includes url ''youtu.be/''"
    "\<not> str_includes url ''youtube.com/embed/''"
  shows "str_match url lib_id_pattern1 False = None"
proof -
  have "match_at lib_id_pattern1 False prev (drop n url) = None" for n prev
  proof -
    have "\<not> startsWith (drop n url) ''youtube.com/watch?v=''"
      using not_includes_not_startsWith [OF assms(1), of n "''v=''"] by simp
    moreover have "\<not> startsWith (drop n url) ''youtu.be/''"
      using not_includes_not_startsWith [OF assms(2), of n "[]"] by simp
    moreover have "\<not> startsWith (drop n url) ''youtube.com/embed/''"
      using not_includes_not_startsWith [OF assms(3), of n "[]"] by simp
    ultimately show ?thesis
      by (simp add: match_at_def lib_id_pattern1_def cat_def lit_prefix_False)
  qed
  then show ?thesis unfolding str_match_def by (rule search_None)
qed

lemma route1_no_match:
  assumes "\<not> str_includes url ''youtube.com/watch?''" "\<not> str_includes url ''youtu.be/''"
    "\<not> str_includes url ''youtube.com/embed/''" "\<not> str_includes url ''youtube.com/v/''"
  shows "str_match url route_id_pattern1 False = None"
proof -
  have "match_at route_id_pattern1 False prev (drop n url) = None" for n prev
  proof -
    have "\<not> startsWith (drop n url) ''youtube.com/watch?v=''"
      using not_includes_not_startsWith [OF assms(1), of n "''v=''"] by simp
    moreover have "\<not> startsWith (drop n url) ''youtu.be/''"
      using not_includes_not_startsWith [OF assms(2), of n "[]"] by simp
    moreover have "\<not> startsWith (drop n url) ''youtube.com/embed/''"
      using not_includes_not_startsWith [OF assms(3), of n "[]"] by simp
    moreover have "\<not> startsWith (drop n url) ''youtube.com/v/''"
      using not_includes_not_startsWith [OF assms(4), of n "[]"] by simp
    ultimately show ?thesis
      by (simp add: match_at_def route_id_pattern1_def cat_def lit_prefix_False)
  qed
  then show ?thesis unfolding str_match_def by (rule search_None)
qed

lemma pattern2_no_match:
  assumes "\<not> str_includes url ''youtube.com/watch?''"
  shows "str_match url id_pattern2 False = None"
proof -
  have "match_at id_pattern2 False prev (drop n url) = None" for n prev
  proof -
    have "\<not> startsWith (drop n url) ''youtube.com/watch?''"
      using not_includes_not_startsWith [OF assms, of n "[]"] by simp
    then show ?thesis
      by (simp add: match_at_def id_pattern2_def cat_def lit_prefix_False)
  qed
  then show ?thesis unfolding str_match_def by (rule search_None)
qed

text \<open>
  Claim C8.  The route's \<open>extractYouTubeVideoId\<close> and the client library's function of the
  same name both return \<open>dQw4w9WgXcQ\<close> for the watch URL with a trailing \<open>&t=30s\<close> and
  for the short \<open>youtu.be\<close> URL, and both return \<open>null\<close> for every URL in which none of
  the texts \<open>youtube.com/watch?\<close>, \<open>youtu.be/\<close>, \<open>youtube.com/embed/\<close> and
  \<open>youtube.com/v/\<close> occurs.
\<close>

theorem extractYouTubeVideoId_spec:
  "extractYouTubeVideoId ''https://www.youtube.com/watch?v=dQw4w9WgXcQ&t=30s'' = Some ''dQw4w9WgXcQ''
   \<and> extractYouTubeVideoId ''https://youtu.be/dQw4w9WgXcQ'' = Some ''dQw4w9WgXcQ''
   \<and> lib_extractYouTubeVideoId ''https://www.youtube.com/watch?v=dQw4w9WgXcQ&t=30s'' = Some ''dQw4w9WgXcQ''
   \<and> lib_extractYouTubeVideoId ''https://youtu.be/dQw4w9WgXcQ'' = Some ''dQw4w9WgXcQ''
   \<and> (\<forall>url. \<not> str_includes url ''youtube.com/watch?'' \<and> \<not> str_includes url ''youtu.be/''
          \<and> \<not> str_includes url ''youtube.com/embed/'' \<and> \<not> str_includes url ''youtube.com/v/''
        \<longrightarrow> extractYouTubeVideoId url = None \<and> lib_extractYouTubeVideoId url = None)"
proof -
  have a: "extractYouTubeVideoId ''https://www.youtube.com/watch?v=dQw4w9WgXcQ&t=30s'' = Some ''dQw4w9WgXcQ''"
    by code_simp
  have b: "extractYouTubeVideoId ''https://youtu.be/dQw4w9WgXcQ'' = Some ''dQw4w9WgXcQ''"
    by code_simp
  have c: "lib_extractYouTubeVideoId ''https://www.youtube.com/watch?v=dQw4w9WgXcQ&t=30s'' = Some ''dQw4w9WgXcQ''"
    by code_simp
  have d: "lib_extractYouTubeVideoId ''https://youtu.be/dQw4w9WgXcQ'' = Some ''dQw4w9WgXcQ''"
    by code_simp
  have e: "extractYouTubeVideoId url = None \<and> lib_extractYouTubeVideoId url = None"
    if "\<not> str_includes url ''youtube.com/watch?''" "\<not> str_includes url ''youtu.be/''"
       "\<not> str_includes url ''youtube.com/embed/''" "\<not> str_includes url ''youtube.com/v/''" for url
    using route1_no_match [OF that] lib1_no_match [OF that(1,2,3)] pattern2_no_match [OF that(1)]
    by (simp add: extractYouTubeVideoId_def lib_extractYouTubeVideoId_def group1_def)
  from a b c d e show ?thesis by blast
qed

theorem extractYouTubeVideoId_spec_witness:
  "\<not> str_includes ''https://example.com/article'' ''youtube.com/watch?''
   \<and> \<not> str_includes ''https://example.com/article'' ''youtu.be/''
   \<and> \<not> str_includes ''https://example.com/article'' ''youtube.com/embed/''
   \<and> \<not> str_includes ''https://example.com/article'' ''youtube.com/v/''
   \<and> extractYouTubeVideoId ''https://example.com/article'' = None
   \<and> lib_extractYouTubeVideoId ''https://example.com/article'' = None"
proof -
  have h: "\<not> str_includes ''https://example.com/article'' ''youtube.com/watch?''
   \<and> \<not> str_includes ''https://example.com/article'' ''youtu.be/''
   \<and> \<not> str_includes ''https://example.com/article'' ''youtube.com/embed/''
   \<and> \<not> str_includes ''https://example.com/article'' ''youtube.com/v/''"
    by simp
  with extractYouTubeVideoId_spec show ?thesis by blast
qed

text \<open>
  Claim C7, as amended.  The classifier always returns one of four classes, decided by
  substrings of the URL in the order of the source: \<open>youtube\<close> for every URL that contains
  \<open>youtube.com\<close> or \<open>youtu.be\<close>; \<open>tiktok\<close> for a URL that contains \<open>tiktok.com\<close> and neither
  of those; \<open>instagram\<close> for a URL that contains \<open>instagram.com\<close> and none of the earlier
  markers; \<open>url\<close> for every other URL.  The route's \<open>getContentTypeFromUrl\<close> is the same
  function, and the three example URLs are classified as \<open>youtube\<close>.
\<close>

theorem getContentType_cascade:
  "(str_includes url ''youtube.com'' \<or> str_includes url ''youtu.be'' \<longrightarrow> getContentType url = ''youtube'')
   \<and> (\<not> str_includes url ''youtube.com'' \<and> \<not> str_includes url ''youtu.be''
        \<and> str_includes url ''tiktok.com'' \<longrightarrow> getContentType url = ''tiktok'')
   \<and> (\<not> str_includes url ''youtube.com'' \<and> \<not> str_includes url ''youtu.be''
        \<and> \<not> str_includes url ''tiktok.com'' \<and> str_includes url ''instagram.com''
        \<longrightarrow> getContentType url = ''instagram'')
   \<and> (\<not> str_includes url ''youtube.com'' \<and> \<not> str_includes url ''youtu.be''
        \<and> \<not> str_includes url ''tiktok.com'' \<and> \<not> str_includes url ''instagram.com''
        \<longrightarrow> getContentType url = ''url'')
   \<and> getContentType url \<in> set [''youtube'', ''tiktok'', ''instagram'', ''url'']
   \<and> getContentTypeFromUrl url = getContentType url
   \<and> getContentType ''https://youtu.be/abc123'' = ''youtube''
   \<and> getContentType ''https://www.youtube.com/watch?v=abc123'' = ''youtube''
   \<and> getContentType ''https://youtube.com/embed/abc123'' = ''youtube''"
  by (simp add: getContentType_def getContentTypeFromUrl_def)

theorem getContentType_cascade_witness:
  "getContentType ''https://www.tiktok.com/@user/video/1'' = ''tiktok''
   \<and> getContentType ''https://www.instagram.com/p/abc/'' = ''instagram''
   \<and> getContentType ''https://example.com/article'' = ''url''
   \<and> getContentTypeFromUrl ''https://youtu.be/abc123'' = ''youtube''"
  using getContentType_cascade [of "''https://www.tiktok.com/@user/video/1''"]
    getContentType_cascade [of "''https://www.instagram.com/p/abc/''"]
    getContentType_cascade [of "''https://example.com/article''"]
    getContentType_cascade [of "''https://youtu.be/abc123''"]
  by simp

text \<open>
  The claim as stated fails where markers overlap: a TikTok link that carries
  \<open>youtube.com\<close> in its query contains \<open>tiktok.com\<close> and is classified as \<open>youtube\<close>.
\<close>

theorem tiktok_link_with_youtube_marker:
  "str_includes ''https://www.tiktok.com/@user/video/1?ref=youtube.com'' ''tiktok.com''
   \<and> getContentType ''https://www.tiktok.com/@user/video/1?ref=youtube.com'' = ''youtube''
   \<and> getContentTypeFromUrl ''https://www.tiktok.com/@user/video/1?ref=youtube.com'' = ''youtube''"
  by code_simp

subsection \<open>The social strategy\<close>

lemma str_includes_append_right: "str_includes b x \<Longrightarrow> str_includes (a @ b) x"
  by (induction a) simp_all

lemma social_texts_note_limit:
  "str_includes tiktok_text ''automated text extraction''"
  "str_includes instagram_text ''automated text extraction''"
  by code_simp+

text \<open>
  Claim C9.  For every URL the TikTok and the Instagram strategy return \<open>success = true\<close>, a
  non-empty content that names the limit of automated text extraction, and metadata whose
  \<open>note\<close> contains \<open>manual review recommended\<close>.  The result is a function of the URL alone:
  the route makes no call to the outside for these two classes, and its answer is the same
  in every state of the outside world.
\<close>

theorem social_placeholder:
  "success (scrapeTikTokContent url)
   \<and> (\<exists>c. content (scrapeTikTokContent url) = Some c \<and> c \<noteq> []
          \<and> str_includes c ''automated text extraction'')
   \<and> (\<exists>m n. metadata (scrapeTikTokContent url) = Some m \<and> map_of m ''note'' = Some (JStr n)
          \<and> str_includes n ''manual review recommended'')
   \<and> success (scrapeInstagramContent url)
   \<and> (\<exists>c. content (scrapeInstagramContent url) = Some c \<and> c \<noteq> []
          \<and> str_includes c ''automated text extraction'')
   \<and> (\<exists>m n. metadata (scrapeInstagramContent url) = Some m \<and> map_of m ''note'' = Some (JStr n)
          \<and> str_includes n ''manual review recommended'')
   \<and> dispatch env ''tiktok'' url = (scrapeTikTokContent url, [])
   \<and> dispatch env ''instagram'' url = (scrapeInstagramContent url, [])
   \<and> dispatch env ''tiktok'' url = dispatch env' ''tiktok'' url
   \<and> dispatch env ''instagram'' url = dispatch env' ''instagram'' url"
proof -
  have s: "success (scrapeTikTokContent url)" "success (scrapeInstagramContent url)"
    by (simp_all add: scrapeTikTokContent_def scrapeInstagramContent_def)
  have "str_includes ((''TikTok video analysis from: '' @ url) @ tiktok_text) ''automated text extraction''"
    using social_texts_note_limit(1) by (rule str_includes_append_right)
  moreover have "content (scrapeTikTokContent url) = Some ((''TikTok video analysis from: '' @ url) @ tiktok_text)"
    by (simp add: scrapeTikTokContent_def)
  ultimately have tc: "\<exists>c. content (scrapeTikTokContent url) = Some c \<and> c \<noteq> []
          \<and> str_includes c ''automated text extraction''"
    by (intro exI [of _ "(''TikTok video analysis from: '' @ url) @ tiktok_text"]) simp
  have "str_includes ((''Instagram post analysis from: '' @ url) @ instagram_text) ''automated text extraction''"
    using social_texts_note_limit(2) by (rule str_includes_append_right)
  moreover have "content (scrapeInstagramContent url) = Some ((''Instagram post analysis from: '' @ url) @ instagram_text)"
    by (simp add: scrapeInstagramContent_def)
  ultimately have ic: "\<exists>c. content (scrapeInstagramContent url) = Some c \<and> c \<noteq> []
          \<and> str_includes c ''automated text extraction''"
    by (intro exI [of _ "(''Instagram post analysis from: '' @ url) @ instagram_text"]) simp
  have n1: "str_includes ''Visual/audio content - manual review recommended'' ''manual review recommended''"
    by code_simp
  have n2: "str_includes ''Visual content - manual review recommended'' ''manual review recommended''"
    by code_simp
  have tm: "\<exists>m n. metadata (scrapeTikTokContent url) = Some m \<and> map_of m ''note'' = Some (JStr n)
          \<and> str_includes n ''manual review recommended''"
    unfolding scrapeTikTokContent_def using n1 by simp
  have im: "\<exists>m n. metadata (scrapeInstagramContent url) = Some m \<and> map_of m ''note'' = Some (JStr n)
          \<and> str_includes n ''manual review recommended''"
    unfolding scrapeInstagramContent_def using n2 by simp
  have d: "dispatch e ''tiktok'' url = (scrapeTikTokContent url, [])"
          "dispatch e ''instagram'' url = (scrapeInstagramContent url, [])" for e
    by (simp_all add: dispatch_def)
  from s tc tm ic im d [of env] d [of env'] show ?thesis by presburger
qed

subsection \<open>The retry envelope\<close>

lemma show_nat_maxRetries: "show_nat maxRetries = ''3''"
  by (simp add: maxRetries_def show_nat.simps digit_char_def)

lemma waitTime_values: "waitTime 1 = 1000" "waitTime 2 = 2000"
  by (simp_all add: waitTime_def)

lemma scrapeContent_unfold:
  "scrapeContent env url ty tr =
     (let R = Request (api_endpoint env) in
      case attempt_once env (length tr) url ty of
        Inr d \<Rightarrow> (d, tr @ [R])
      | Inl e1 \<Rightarrow>
          (case attempt_once env (Suc (Suc (length tr))) url ty of
             Inr d \<Rightarrow> (d, tr @ [R, Wait 1000, R])
           | Inl e2 \<Rightarrow>
               (case attempt_once env (Suc (Suc (Suc (Suc (length tr))))) url ty of
                  Inr d \<Rightarrow> (d, tr @ [R, Wait 1000, R, Wait 2000, R])
                | Inl e3 \<Rightarrow>
                    (failure (''Scraping failed after 3 attempts: ''
                       @ (if exn_message e3 = [] then ''Unknown error'' else exn_message e3)),
                     tr @ [R, Wait 1000, R, Wait 2000, R]))))"
proof -
  have s4: "scrape_attempts env url ty (Suc (Suc (Suc (Suc 0)))) le t = (failure (''Scraping failed after 3 attempts: '' @ or_else le ''Unknown error''), t)" for le t
    by (subst scrape_attempts.simps) (simp add: maxRetries_def show_nat.simps digit_char_def)
  have s3: "scrape_attempts env url ty (Suc (Suc (Suc 0))) le t =
      (case attempt_once env (length t) url ty of
         Inr d \<Rightarrow> (d, t @ [Request (api_endpoint env)])
       | Inl e \<Rightarrow> scrape_attempts env url ty (Suc (Suc (Suc (Suc 0)))) (Some (exn_message e)) (t @ [Request (api_endpoint env)]))" for le t
    by (subst scrape_attempts.simps) (simp add: maxRetries_def Let_def split: sum.splits)
  have s2: "scrape_attempts env url ty (Suc (Suc 0)) le t =
      (case attempt_once env (length t) url ty of
         Inr d \<Rightarrow> (d, t @ [Request (api_endpoint env)])
       | Inl e \<Rightarrow> scrape_attempts env url ty (Suc (Suc (Suc 0))) (Some (exn_message e))
            (t @ [Request (api_endpoint env), Wait 2000]))" for le t
    by (subst scrape_attempts.simps) (simp add: maxRetries_def Let_def waitTime_def split: sum.splits)
  have s1: "scrape_attempts env url ty (Suc 0) le t =
      (case attempt_once env (length t) url ty of
         Inr d \<Rightarrow> (d, t @ [Request (api_endpoint env)])
       | Inl e \<Rightarrow> scrape_attempts env url ty (Suc (Suc 0)) (Some (exn_message e))
            (t @ [Request (api_endpoint env), Wait 1000]))" for le t
    by (subst scrape_attempts.simps) (simp add: maxRetries_def Let_def waitTime_def split: sum.splits)
  show ?thesis
    by (simp add: scrapeContent_def s1 s2 s3 s4 Let_def or_else_def split: sum.splits)
qed

lemma scrapeContent_cases:
  "(\<exists>t d. attempt_once env t url ty = Inr d \<and> fst (scrapeContent env url ty tr) = d)
   \<or> (\<exists>msg. msg \<noteq> [] \<and> fst (scrapeContent env url ty tr) = failure msg)"
  unfolding scrapeContent_unfold [of env url ty tr] Let_def
  by (auto split: sum.splits)

lemma scrapeContent_requests:
  "length (filter is_request (drop (length tr) (snd (scrapeContent env url ty tr)))) \<le> 3"
  unfolding scrapeContent_unfold [of env url ty tr] Let_def
  by (auto split: sum.splits)

text \<open>
  Claim C3.  \<open>scrapeContent\<close> makes at most 3 requests.  It returns the data of the first
  attempt that does not throw; after a failed first attempt it waits
  \<open>min(1000 * 2^0, 5000) = 1000\<close> ms and after a failed second attempt
  \<open>min(1000 * 2^1, 5000) = 2000\<close> ms, and it does not wait after the third.  When all three
  attempts fail it returns \<open>success = false\<close> with the message
  \<open>Scraping failed after 3 attempts: \<close> followed by the message of the last error (or
  \<open>Unknown error\<close> when that is empty), so the message contains both the count 3 and the
  message of the last error.
\<close>

theorem scrapeContent_retry:
  "(\<forall>d. attempt_once env (length tr) url ty = Inr d
        \<longrightarrow> scrapeContent env url ty tr = (d, tr @ [Request (api_endpoint env)]))
   \<and> (\<forall>e1 d. attempt_once env (length tr) url ty = Inl e1
          \<and> attempt_once env (length tr + 2) url ty = Inr d
        \<longrightarrow> scrapeContent env url ty tr
            = (d, tr @ [Request (api_endpoint env), Wait (waitTime 1), Request (api_endpoint env)]))
   \<and> (\<forall>e1 e2 d. attempt_once env (length tr) url ty = Inl e1
          \<and> attempt_once env (length tr + 2) url ty = Inl e2
          \<and> attempt_once env (length tr + 4) url ty = Inr d
        \<longrightarrow> scrapeContent env url ty tr
            = (d, tr @ [Request (api_endpoint env), Wait (waitTime 1), Request (api_endpoint env),
                        Wait (waitTime 2), Request (api_endpoint env)]))
   \<and> (\<forall>e1 e2 e3. attempt_once env (length tr) url ty = Inl e1
          \<and> attempt_once env (length tr + 2) url ty = Inl e2
          \<and> attempt_once env (length tr + 4) url ty = Inl e3
        \<longrightarrow> snd (scrapeContent env url ty tr)
              = tr @ [Request (api_endpoint env), Wait (waitTime 1), Request (api_endpoint env),
                      Wait (waitTime 2), Request (api_endpoint env)]
            \<and> fst (scrapeContent env url ty tr)
              = failure (''Scraping failed after 3 attempts: ''
                         @ (if exn_message e3 = [] then ''Unknown error'' else exn_message e3))
            \<and> \<not> success (fst (scrapeContent env url ty tr))
            \<and> (\<exists>msg. error (fst (scrapeContent env url ty tr)) = Some msg
                  \<and> str_includes msg (show_nat maxRetries) \<and> str_includes msg (exn_message e3)))
   \<and> waitTime 1 = 1000 \<and> waitTime 2 = 2000
   \<and> (\<forall>attempt. waitTime attempt = min (1000 * 2 ^ (attempt - 1)) 5000)
   \<and> show_nat maxRetries = ''3''
   \<and> length (filter is_request (drop (length tr) (snd (scrapeContent env url ty tr)))) \<le> 3"
proof -
  have idx: "length tr + 2 = Suc (Suc (length tr))" "length tr + 4 = Suc (Suc (Suc (Suc (length tr))))"
    by simp_all
  have three: "str_includes (''Scraping failed after 3 attempts: '' @ m) ''3''" for m
    by simp
  have last_msg: "str_includes (''Scraping failed after 3 attempts: '' @ (if m = [] then ''Unknown error'' else m)) m" for m
    using str_includes_suffix [of "''Scraping failed after 3 attempts: ''" m] by simp
  have a: "\<forall>d. attempt_once env (length tr) url ty = Inr d
        \<longrightarrow> scrapeContent env url ty tr = (d, tr @ [Request (api_endpoint env)])"
    unfolding scrapeContent_unfold [of env url ty tr] Let_def by simp
  have b: "\<forall>e1 d. attempt_once env (length tr) url ty = Inl e1
          \<and> attempt_once env (length tr + 2) url ty = Inr d
        \<longrightarrow> scrapeContent env url ty tr
            = (d, tr @ [Request (api_endpoint env), Wait (waitTime 1), Request (api_endpoint env)])"
    unfolding scrapeContent_unfold [of env url ty tr] Let_def idx by (simp add: waitTime_def)
  have c: "\<forall>e1 e2 d. attempt_once env (length tr) url ty = Inl e1
          \<and> attempt_once env (length tr + 2) url ty = Inl e2
          \<and> attempt_once env (length tr + 4) url ty = Inr d
        \<longrightarrow> scrapeContent env url ty tr
            = (d, tr @ [Request (api_endpoint env), Wait (waitTime 1), Request (api_endpoint env),
                        Wait (waitTime 2), Request (api_endpoint env)])"
    unfolding scrapeContent_unfold [of env url ty tr] Let_def idx by (simp add: waitTime_def)
  have d: "\<forall>e1 e2 e3. attempt_once env (length tr) url ty = Inl e1
          \<and> attempt_once env (length tr + 2) url ty = Inl e2
          \<and> attempt_once env (length tr + 4) url ty = Inl e3
        \<longrightarrow> snd (scrapeContent env url ty tr)
              = tr @ [Request (api_endpoint env), Wait (waitTime 1), Request (api_endpoint env),
                      Wait (waitTime 2), Request (api_endpoint env)]
            \<and> fst (scrapeContent env url ty tr)
              = failure (''Scraping failed after 3 attempts: ''
                         @ (if exn_message e3 = [] then ''Unknown error'' else exn_message e3))
            \<and> \<not> success (fst (scrapeContent env url ty tr))
            \<and> (\<exists>msg. error (fst (scrapeContent env url ty tr)) = Some msg
                  \<and> str_includes msg (show_nat maxRetries) \<and> str_includes msg (exn_message e3))"
  proof (intro allI impI)
    fix e1 e2 e3
    assume h: "attempt_once env (length tr) url ty = Inl e1
          \<and> attempt_once env (length tr + 2) url ty = Inl e2
          \<and> attempt_once env (length tr + 4) url ty = Inl e3"
    let ?m = "''Scraping failed after 3 attempts: '' @ (if exn_message e3 = [] then ''Unknown error'' else exn_message e3)"
    have r: "scrapeContent env url ty tr
       = (failure ?m, tr @ [Request (api_endpoint env), Wait (waitTime 1), Request (api_endpoint env),
                      Wait (waitTime 2), Request (api_endpoint env)])"
      using h unfolding scrapeContent_unfold [of env url ty tr] Let_def idx
      by (simp add: waitTime_def)
    have "error (failure ?m) = Some ?m" by (simp add: failure_def)
    moreover have "str_includes ?m (show_nat maxRetries)"
      unfolding show_nat_maxRetries by (rule three)
    moreover have "str_includes ?m (exn_message e3)" by (rule last_msg)
    ultimately show "snd (scrapeContent env url ty tr)
              = tr @ [Request (api_endpoint env), Wait (waitTime 1), Request (api_endpoint env),
                      Wait (waitTime 2), Request (api_endpoint env)]
            \<and> fst (scrapeContent env url ty tr) = failure ?m
            \<and> \<not> success (fst (scrapeContent env url ty tr))
            \<and> (\<exists>msg. error (fst (scrapeContent env url ty tr)) = Some msg
                  \<and> str_includes msg (show_nat maxRetries) \<and> str_includes msg (exn_message e3))"
      unfolding r by simp
  qed
  have w: "\<forall>attempt. waitTime attempt = min (1000 * 2 ^ (attempt - 1)) 5000"
    by (simp add: waitTime_def)
  from a b c d w waitTime_values show_nat_maxRetries scrapeContent_requests [of tr env url ty]
  show ?thesis by blast
qed

lemma broken_attempt: "attempt_once broken_client t url ty = Inl (Error ''fetch failed'')"
  by (simp add: attempt_once_def broken_client_def local_client_def)

theorem scrapeContent_retry_witness:
  "attempt_once broken_client 0 ''https://example.com/a'' ''url'' = Inl (Error ''fetch failed'')
   \<and> attempt_once broken_client 2 ''https://example.com/a'' ''url'' = Inl (Error ''fetch failed'')
   \<and> attempt_once broken_client 4 ''https://example.com/a'' ''url'' = Inl (Error ''fetch failed'')
   \<and> scrapeContent broken_client ''https://example.com/a'' ''url'' []
       = (failure ''Scraping failed after 3 attempts: fetch failed'',
          [Request ''http://localhost:9002/api/scrape'', Wait 1000,
           Request ''http://localhost:9002/api/scrape'', Wait 2000,
           Request ''http://localhost:9002/api/scrape''])"
proof -
  have ep: "api_endpoint broken_client = ''http://localhost:9002/api/scrape''"
    by (simp add: api_endpoint_def broken_client_def local_client_def)
  have m: "exn_message (Error ''fetch failed'') = ''fetch failed''"
    by (simp add: exn_message_def)
  from scrapeContent_retry [of broken_client "[]" "''https://example.com/a''" "''url''"]
  have "snd (scrapeContent broken_client ''https://example.com/a'' ''url'' [])
              = [] @ [Request (api_endpoint broken_client), Wait (waitTime 1), Request (api_endpoint broken_client),
                      Wait (waitTime 2), Request (api_endpoint broken_client)]
     \<and> fst (scrapeContent broken_client ''https://example.com/a'' ''url'' [])
          = failure (''Scraping failed after 3 attempts: ''
                         @ (if exn_message (Error ''fetch failed'') = [] then ''Unknown error'' else exn_message (Error ''fetch failed'')))"
    using broken_attempt by simp
  then have "scrapeContent broken_client ''https://example.com/a'' ''url'' []
       = (failure ''Scraping failed after 3 attempts: fetch failed'',
          [Request ''http://localhost:9002/api/scrape'', Wait 1000,
           Request ''http://localhost:9002/api/scrape'', Wait 2000,
           Request ''http://localhost:9002/api/scrape''])"
    unfolding ep m by (simp add: prod_eq_iff waitTime_def)
  with broken_attempt show ?thesis by simp
qed

subsection \<open>The client served by the route\<close>

lemma served_response:
  assumes "served_by_route env" "post_scrape env t endpoint url ty = Inr resp"
  shows "\<exists>senv reason render. resp = served reason render (POST senv (route_request url ty))"
proof -
  from assms(1) have
    "case post_scrape env t endpoint url ty of
       Inl e \<Rightarrow> True
     | Inr resp \<Rightarrow> (\<exists>senv reason render. resp = served reason render (POST senv (route_request url ty)))"
    unfolding served_by_route_def by blast
  with assms(2) show ?thesis by simp
qed

lemma served_attempt:
  assumes "served_by_route env" "attempt_once env t url ty = Inr d"
  shows "\<exists>senv. d = r_body (POST senv (route_request url ty))"
proof (cases "post_scrape env t (api_endpoint env) url ty")
  case (Inl e)
  with assms(2) show ?thesis by (simp add: attempt_once_def)
next
  case (Inr resp)
  from served_response [OF assms(1) Inr] obtain senv reason render where
    r: "resp = served reason render (POST senv (route_request url ty))" by blast
  from assms(2) Inr have "c_ok resp" "c_json resp = Inr d"
    by (auto simp: attempt_once_def split: if_splits sum.splits)
  with r have "d = r_body (POST senv (route_request url ty))" by (simp add: served_def)
  then show ?thesis by blast
qed

lemma POST_empty_url:
  "\<not> truthy (b_url b) \<Longrightarrow>
     POST senv (Inr b) = \<lparr>r_status = 400, r_body = failure ''URL is required'', r_calls = []\<rparr>"
  by (simp add: POST_def)

lemma empty_url_attempt:
  assumes "served_by_route env"
  shows "\<exists>e. attempt_once env t [] ty = Inl e"
proof (cases "post_scrape env t (api_endpoint env) [] ty")
  case (Inl e)
  then show ?thesis by (simp add: attempt_once_def)
next
  case (Inr resp)
  from served_response [OF assms Inr] obtain senv reason render where
    r: "resp = served reason render (POST senv (route_request [] ty))" by blast
  have "POST senv (route_request [] ty)
         = \<lparr>r_status = 400, r_body = failure ''URL is required'', r_calls = []\<rparr>"
    unfolding route_request_def by (rule POST_empty_url) (simp add: truthy_def)
  with r have "\<not> c_ok resp" "\<exists>txt. c_text resp = Inr txt" by (simp_all add: served_def)
  with Inr show ?thesis by (auto simp: attempt_once_def)
qed

lemma served_by_route_local: "served_by_route local_client"
  unfolding served_by_route_def local_client_def by auto

text \<open>
  Claim C6, as amended.  For every request whose \<open>url\<close> is empty or missing the route handler
  answers at once with status 400 and \<open>success = false\<close> (\<open>URL is required\<close>), having made no
  call to the outside.  The client's retry wrapper does not look at the URL: called with
  an empty URL it sends its request all the same, no attempt can succeed, and it makes all
  three requests with both waits before it returns \<open>success = false\<close>.
\<close>

theorem empty_url_rejected:
  "(\<not> truthy (b_url b) \<longrightarrow>
      POST senv (Inr b) = \<lparr>r_status = 400, r_body = failure ''URL is required'', r_calls = []\<rparr>)
   \<and> (served_by_route env \<longrightarrow>
        \<not> success (fst (scrapeContent env [] ty tr))
        \<and> snd (scrapeContent env [] ty tr)
            = tr @ [Request (api_endpoint env), Wait 1000, Request (api_endpoint env), Wait 2000,
                    Request (api_endpoint env)])"
proof -
  have "\<not> success (fst (scrapeContent env [] ty tr))
        \<and> snd (scrapeContent env [] ty tr)
            = tr @ [Request (api_endpoint env), Wait 1000, Request (api_endpoint env), Wait 2000,
                    Request (api_endpoint env)]" if s: "served_by_route env"
  proof -
    from empty_url_attempt [OF s] obtain e1 e2 e3 where
      "attempt_once env (length tr) [] ty = Inl e1"
      "attempt_once env (Suc (Suc (length tr))) [] ty = Inl e2"
      "attempt_once env (Suc (Suc (Suc (Suc (length tr))))) [] ty = Inl e3" by metis
    then show ?thesis
      unfolding scrapeContent_unfold [of env "[]" ty tr] Let_def by simp
  qed
  with POST_empty_url show ?thesis by blast
qed

theorem empty_url_rejected_witness:
  "\<not> truthy (b_url \<lparr>b_url = Some [], b_type = None\<rparr>)
   \<and> POST offline_server (Inr \<lparr>b_url = Some [], b_type = None\<rparr>)
       = \<lparr>r_status = 400, r_body = failure ''URL is required'', r_calls = []\<rparr>
   \<and> served_by_route local_client
   \<and> \<not> success (fst (scrapeContent local_client [] ''url'' []))
   \<and> length (snd (scrapeContent local_client [] ''url'' [])) = 5"
  using empty_url_rejected [of "\<lparr>b_url = Some [], b_type = None\<rparr>" offline_server local_client "''url''" "[]"]
    served_by_route_local
  by (simp add: truthy_def)

text \<open>
  The claim as stated fails for the retry wrapper: with an empty URL, against the route
  handler, it makes three requests and waits twice.
\<close>

theorem empty_url_retried:
  "scrapeContent local_client [] ''url'' []
     = (failure (''Scraping failed after 3 attempts: HTTP 400: Bad Request - ''
                 @ error_body (failure ''URL is required'')),
        [Request ''http://localhost:9002/api/scrape'', Wait 1000,
         Request ''http://localhost:9002/api/scrape'', Wait 2000,
         Request ''http://localhost:9002/api/scrape''])"
proof -
  have p: "POST offline_server (route_request [] ''url'')
         = \<lparr>r_status = 400, r_body = failure ''URL is required'', r_calls = []\<rparr>"
    unfolding route_request_def by (rule POST_empty_url) (simp add: truthy_def)
  have n: "show_nat 400 = ''400''" by code_simp
  have ep: "api_endpoint local_client = ''http://localhost:9002/api/scrape''"
    by (simp add: api_endpoint_def local_client_def)
  have a: "attempt_once local_client t [] ''url''
      = Inl (Error (''HTTP 400: Bad Request - '' @ error_body (failure ''URL is required'')))" for t
    unfolding attempt_once_def ep
    by (simp add: local_client_def p served_def n reason_phrase_def)
  show ?thesis
    unfolding scrapeContent_unfold [of local_client "[]" "''url''" "[]"] Let_def a ep
    by (simp add: exn_message_def)
qed

subsection \<open>Successful results\<close>

text \<open>
  Claim C1, as amended.  Every result with \<open>success = true\<close> that the scrape route handler
  returns (from the video, the article or a social strategy) carries content that is
  non-empty and at least 50 code units long after trimming, and so does every such result
  of \<open>scrapeContent\<close> when its requests are answered by the route handler.
\<close>

theorem route_success_content:
  "(success (r_body (POST senv req)) \<longrightarrow> content_ok (r_body (POST senv req)))
   \<and> (served_by_route env \<and> success (fst (scrapeContent env url ty tr))
        \<longrightarrow> content_ok (fst (scrapeContent env url ty tr)))"
proof -
  have "content_ok (fst (scrapeContent env url ty tr))"
    if s: "served_by_route env" and ok: "success (fst (scrapeContent env url ty tr))"
  proof -
    from scrapeContent_cases [of env url ty tr] ok
    obtain t d where "attempt_once env t url ty = Inr d" "fst (scrapeContent env url ty tr) = d"
      by auto
    with served_attempt [OF s] ok POST_content_ok show ?thesis by metis
  qed
  with POST_content_ok show ?thesis by blast
qed

theorem route_success_content_witness:
  "success (r_body (POST offline_server (route_request ''https://www.tiktok.com/@user/video/1'' ''tiktok'')))
   \<and> content_ok (r_body (POST offline_server (route_request ''https://www.tiktok.com/@user/video/1'' ''tiktok'')))
   \<and> served_by_route local_client
   \<and> success (fst (scrapeContent local_client ''https://www.tiktok.com/@user/video/1'' ''tiktok'' []))
   \<and> content_ok (fst (scrapeContent local_client ''https://www.tiktok.com/@user/video/1'' ''tiktok'' []))"
proof -
  let ?u = "''https://www.tiktok.com/@user/video/1''"
  have p: "POST offline_server (route_request ?u ''tiktok'')
      = \<lparr>r_status = 200, r_body = scrapeTikTokContent ?u, r_calls = []\<rparr>"
    by (simp add: POST_def route_request_def truthy_def tpl_def or_else_def dispatch_def)
  have s: "success (scrapeTikTokContent ?u)" by (simp add: scrapeTikTokContent_def)
  have a: "attempt_once local_client 0 ?u ''tiktok'' = Inr (scrapeTikTokContent ?u)"
    unfolding attempt_once_def by (simp add: local_client_def p served_def)
  have c: "fst (scrapeContent local_client ?u ''tiktok'' []) = scrapeTikTokContent ?u"
    unfolding scrapeContent_unfold [of local_client ?u "''tiktok''" "[]"] Let_def using a by simp
  from route_success_content [of offline_server "route_request ?u ''tiktok''" local_client ?u "''tiktok''" "[]"]
    served_by_route_local s
  show ?thesis unfolding p c by simp
qed

text \<open>
  The claim as stated fails for \<open>scrapeWithCustomAPI\<close>: when the configured service answers
  with an object that has neither \<open>content\<close> nor \<open>text\<close>, the result is \<open>success = true\<close>
  with the empty string as content.
\<close>

theorem custom_api_empty_content:
  "success (fst (scrapeWithCustomAPI custom_client ''https://example.com/post'' []))
   \<and> content (fst (scrapeWithCustomAPI custom_client ''https://example.com/post'' [])) = Some []
   \<and> \<not> content_ok (fst (scrapeWithCustomAPI custom_client ''https://example.com/post'' []))"
proof -
  have "fst (scrapeWithCustomAPI custom_client ''https://example.com/post'' [])
      = custom_result ''https://example.com/post'' empty_custom_json"
    by (simp add: scrapeWithCustomAPI_def custom_client_def local_client_def truthy_def tpl_def)
  moreover have "success (custom_result u empty_custom_json)"
    "content (custom_result u empty_custom_json) = Some []" for u
    by (simp_all add: custom_result_def empty_custom_json_def or_else_def)
  ultimately show ?thesis by (simp add: content_ok_def)
qed

subsection \<open>Failed results\<close>

lemma youtube_catch_shape: "failure_shape (youtube_catch e)"
  by (simp add: youtube_catch_def Let_def)

lemma synthesize_shape:
  assumes "synthesize url vid v = Inr r"
  shows "success r \<or> failure_shape r"
  using assms
  by (auto simp: synthesize_def Let_def insufficient_content_def split: if_splits option.splits)

lemma youtube_shape:
  "success (fst (scrapeYouTubeContentEnhanced env url))
   \<or> failure_shape (fst (scrapeYouTubeContentEnhanced env url))"
proof (cases "extractYouTubeVideoId url")
  case None
  then show ?thesis by (simp add: scrapeYouTubeContentEnhanced_def)
next
  case (Some vid)
  show ?thesis
  proof (cases "synthesize url vid (collect env url vid)")
    case (Inl e)
    with Some show ?thesis
      by (simp add: scrapeYouTubeContentEnhanced_def Let_def youtube_catch_shape)
  next
    case (Inr r)
    with Some synthesize_shape [OF Inr] show ?thesis
      by (simp add: scrapeYouTubeContentEnhanced_def Let_def)
  qed
qed

lemma article_catch_shape: "failure_shape (article_catch e)"
  by (cases e) (simp_all add: article_catch_def)

lemma article_parse_shape:
  assumes "article_parse env url html = Inr r"
  shows "success r \<or> failure_shape r"
  using assms
  by (auto simp: article_parse_def Let_def no_meaningful_content_def
           split: sum.splits if_splits option.splits)

lemma article_shape:
  "success (fst (scrapeArticleContentEnhanced env url))
   \<or> failure_shape (fst (scrapeArticleContentEnhanced env url))"
proof (cases "article_body env url")
  case (Inl e)
  then show ?thesis by (simp add: scrapeArticleContentEnhanced_def article_catch_shape)
next
  case (Inr r)
  then obtain html where "article_parse env url html = Inr r"
    by (auto simp: article_body_def split: sum.splits if_splits)
  from article_parse_shape [OF this] Inr show ?thesis
    by (simp add: scrapeArticleContentEnhanced_def)
qed

lemma social_success [simp]:
  "success (scrapeTikTokContent url)" "success (scrapeInstagramContent url)"
  by (simp_all add: scrapeTikTokContent_def scrapeInstagramContent_def)

lemma dispatch_shape:
  "success (fst (dispatch env ct url)) \<or> failure_shape (fst (dispatch env ct url))"
  using dispatch_cases [of env ct url] youtube_shape [of env url] article_shape [of env url]
  by (elim disjE) simp_all

lemma POST_shape:
  assumes "req \<noteq> Inl (Error [])"
  shows "success (r_body (POST senv req)) \<or> failure_shape (r_body (POST senv req))"
proof (cases req)
  case (Inl e)
  with assms show ?thesis by (cases e) (simp_all add: POST_def)
next
  case (Inr b)
  then show ?thesis using dispatch_shape by (simp add: POST_def Let_def)
qed

lemma scrapeContent_shape:
  assumes "served_by_route env"
  shows "success (fst (scrapeContent env url ty tr)) \<or> failure_shape (fst (scrapeContent env url ty tr))"
proof -
  from scrapeContent_cases [of env url ty tr]
  consider t d where "attempt_once env t url ty = Inr d" "fst (scrapeContent env url ty tr) = d"
    | msg where "msg \<noteq> []" "fst (scrapeContent env url ty tr) = failure msg" by blast
  then show ?thesis
  proof cases
    case 1
    from served_attempt [OF assms 1(1)] obtain senv where
      "d = r_body (POST senv (route_request url ty))" by blast
    moreover have "route_request url ty \<noteq> Inl (Error [])" by (simp add: route_request_def)
    ultimately show ?thesis using POST_shape 1(2) by metis
  next
    case 2
    then show ?thesis by simp
  qed
qed

lemma poll_success: "poll env td n tr = (Inr r, tr') \<Longrightarrow> success r"
proof (induction env td n tr rule: poll.induct)
  case (1 env td attempts tr)
  from "1.prems" show ?case
    apply (subst (asm) poll.simps)
    apply (simp only: Let_def split: if_splits sum.splits)
    using "1.IH" apply (auto simp: transcript_result_def)
    done
qed

lemma assembly_shape:
  assumes "served_by_route env"
  shows "success (fst (scrapeWithAssemblyAI env url tr)) \<or> failure_shape (fst (scrapeWithAssemblyAI env url tr))"
  using scrapeContent_shape [OF assms] poll_success
  by (auto simp: scrapeWithAssemblyAI_def Let_def split: sum.splits if_splits prod.splits)

lemma custom_shape:
  assumes "served_by_route env"
  shows "success (fst (scrapeWithCustomAPI env url tr)) \<or> failure_shape (fst (scrapeWithCustomAPI env url tr))"
  using scrapeContent_shape [OF assms]
  by (auto simp: scrapeWithCustomAPI_def Let_def custom_result_def split: sum.splits if_splits)

lemma try_custom_shape:
  assumes "served_by_route env"
  shows "success (fst (try_custom env url ty tr)) \<or> failure_shape (fst (try_custom env url ty tr))"
  using scrapeContent_shape [OF assms] custom_shape [OF assms]
  by (auto simp: try_custom_def split: prod.splits)

lemma enhanced_shape:
  assumes "served_by_route env"
  shows "success (fst (scrapeContentEnhanced env url ty tr))
         \<or> failure_shape (fst (scrapeContentEnhanced env url ty tr))"
  using try_custom_shape [OF assms] assembly_shape [OF assms]
  by (auto simp: scrapeContentEnhanced_def split: prod.splits)

text \<open>
  Claim C2.  Every result with \<open>success = false\<close> carries a non-empty error message and
  neither content nor title: the results of the video and the article chain, those of the
  route handler (whose own \<open>catch\<close> passes on the message of the error that reading the
  request threw, which the runtime never leaves empty), and those of the four client entry
  points when their requests to the scrape endpoint are answered by the route handler.
\<close>

theorem failed_results_shape:
  "(req \<noteq> Inl (Error []) \<and> \<not> success (r_body (POST senv req))
      \<longrightarrow> failure_shape (r_body (POST senv req)))
   \<and> (\<not> success (fst (scrapeYouTubeContentEnhanced senv url))
      \<longrightarrow> failure_shape (fst (scrapeYouTubeContentEnhanced senv url)))
   \<and> (\<not> success (fst (scrapeArticleContentEnhanced senv url))
      \<longrightarrow> failure_shape (fst (scrapeArticleContentEnhanced senv url)))
   \<and> (served_by_route env \<longrightarrow>
        (\<not> success (fst (scrapeContent env url ty tr))
           \<longrightarrow> failure_shape (fst (scrapeContent env url ty tr)))
      \<and> (\<not> success (fst (scrapeWithAssemblyAI env url tr))
           \<longrightarrow> failure_shape (fst (scrapeWithAssemblyAI env url tr)))
      \<and> (\<not> success (fst (scrapeWithCustomAPI env url tr))
           \<longrightarrow> failure_shape (fst (scrapeWithCustomAPI env url tr)))
      \<and> (\<not> success (fst (scrapeContentEnhanced env url ty tr))
           \<longrightarrow> failure_shape (fst (scrapeContentEnhanced env url ty tr))))"
  using POST_shape [of req senv] youtube_shape [of senv url] article_shape [of senv url]
    scrapeContent_shape [of env url ty tr] assembly_shape [of env url tr]
    custom_shape [of env url tr] enhanced_shape [of env url ty tr]
  by blast

lemma served_by_route_broken: "served_by_route broken_client"
  unfolding served_by_route_def broken_client_def local_client_def by simp

theorem failed_results_shape_witness:
  "(Inr \<lparr>b_url = None, b_type = None\<rparr> :: exn + scrape_body) \<noteq> Inl (Error [])
   \<and> \<not> success (r_body (POST offline_server (Inr \<lparr>b_url = None, b_type = None\<rparr>)))
   \<and> failure_shape (r_body (POST offline_server (Inr \<lparr>b_url = None, b_type = None\<rparr>)))
   \<and> \<not> success (fst (scrapeYouTubeContentEnhanced offline_server ''https://example.com/article''))
   \<and> failure_shape (fst (scrapeYouTubeContentEnhanced offline_server ''https://example.com/article''))
   \<and> \<not> success (fst (scrapeArticleContentEnhanced offline_server ''https://example.com/article''))
   \<and> failure_shape (fst (scrapeArticleContentEnhanced offline_server ''https://example.com/article''))
   \<and> served_by_route broken_client
   \<and> \<not> success (fst (scrapeContent broken_client ''https://example.com/article'' ''url'' []))
   \<and> failure_shape (fst (scrapeContent broken_client ''https://example.com/article'' ''url'' []))
   \<and> \<not> success (fst (scrapeWithAssemblyAI broken_client ''https://example.com/article'' []))
   \<and> failure_shape (fst (scrapeWithAssemblyAI broken_client ''https://example.com/article'' []))
   \<and> \<not> success (fst (scrapeWithCustomAPI broken_client ''https://example.com/article'' []))
   \<and> failure_shape (fst (scrapeWithCustomAPI broken_client ''https://example.com/article'' []))
   \<and> \<not> success (fst (scrapeContentEnhanced broken_client ''https://example.com/article'' ''url'' []))
   \<and> failure_shape (fst (scrapeContentEnhanced broken_client ''https://example.com/article'' ''url'' []))"
proof -
  let ?u = "''https://example.com/article''"
  have p: "\<not> success (r_body (POST offline_server (Inr \<lparr>b_url = None, b_type = None\<rparr>)))"
    by (simp add: POST_def truthy_def)
  have "extractYouTubeVideoId ?u = None" by code_simp
  then have y: "\<not> success (fst (scrapeYouTubeContentEnhanced offline_server ?u))"
    by (simp add: scrapeYouTubeContentEnhanced_def)
  have a: "\<not> success (fst (scrapeArticleContentEnhanced offline_server ?u))"
    by (simp add: scrapeArticleContentEnhanced_def article_body_def offline_server_def)
  have c: "\<not> success (fst (scrapeContent broken_client ?u ty []))" for ty
    unfolding scrapeContent_unfold [of broken_client ?u ty "[]"] Let_def broken_attempt by simp
  have k: "\<not> truthy (assemblyai_key broken_client)" "\<not> truthy (custom_api_key broken_client)"
    by (simp_all add: broken_client_def local_client_def truthy_def)
  have "lib_extractYouTubeVideoId ?u = None" by code_simp
  then have s: "\<not> success (fst (scrapeWithAssemblyAI broken_client ?u []))"
    by (simp add: scrapeWithAssemblyAI_def truthy_def)
  have cu: "\<not> success (fst (scrapeWithCustomAPI broken_client ?u []))"
    using k c by (simp add: scrapeWithCustomAPI_def)
  have e: "\<not> success (fst (scrapeContentEnhanced broken_client ?u ''url'' []))"
    using k c by (simp add: scrapeContentEnhanced_def try_custom_def)
  from failed_results_shape [of "Inr \<lparr>b_url = None, b_type = None\<rparr>" offline_server ?u broken_client "''url''" "[]"]
    p y a c [of "''url''"] s cu e served_by_route_broken
  show ?thesis by simp
qed

subsection \<open>The analysis block and the acceptance gate\<close>

lemma analysis_text_core:
  "take 428 (drop 2 analysis_text) \<noteq> []"
  "\<not> is_ws (hd (take 428 (drop 2 analysis_text)))"
  "\<not> is_ws (last (take 428 (drop 2 analysis_text)))"
  "50 < length (take 428 (drop 2 analysis_text))"
  by code_simp+

lemma analysis_text_split:
  "analysis_text = take 2 analysis_text @ take 428 (drop 2 analysis_text) @ drop 430 analysis_text"
proof -
  have "drop 2 analysis_text = take 428 (drop 2 analysis_text) @ drop 428 (drop 2 analysis_text)"
    by (rule append_take_drop_id [symmetric])
  moreover have "drop 428 (drop 2 analysis_text) = drop 430 analysis_text" by simp
  moreover have "analysis_text = take 2 analysis_text @ drop 2 analysis_text"
    by (rule append_take_drop_id [symmetric])
  ultimately show ?thesis by simp
qed

lemma analysis_block_long: "50 < length (trim (analysis_block vid v))"
proof -
  let ?core = "take 428 (drop 2 analysis_text)"
  define A where "A = ''\<newline>VIDEO ANALYSIS:\<newline>Title: ''
           @ or_else (videoTitle v) (''YouTube Video '' @ vid)
           @ ''\<newline>Channel: '' @ or_else (channelName v) ''Unknown Channel''
           @ ''\<newline>'' @ (if truthy (viewCount v) then ''Views: '' @ tpl (viewCount v) else [])
           @ ''\<newline>'' @ (if truthy (publishDate v) then ''Published: '' @ tpl (publishDate v) else [])"
  define Z where "Z = or_else (channelName v) ''established YouTube channel'' @ ''\<newline>      ''"
  have "analysis_block vid v = trim (A @ analysis_text @ Z)"
    by (simp add: analysis_block_def A_def Z_def)
  also have "A @ analysis_text @ Z = (A @ take 2 analysis_text) @ ?core @ (drop 430 analysis_text @ Z)"
    using analysis_text_split by (metis append_assoc)
  finally have b: "analysis_block vid v = trim ((A @ take 2 analysis_text) @ ?core @ (drop 430 analysis_text @ Z))" .
  have "length ?core \<le> length (analysis_block vid v)"
    unfolding b using analysis_text_core(1,2,3) by (rule trim_length_core)
  moreover have "trim (analysis_block vid v) = analysis_block vid v"
    unfolding analysis_block_def by (rule trim_trim)
  ultimately show ?thesis using analysis_text_core(4) by simp
qed

lemma synthesize_short:
  assumes "length (assemble v) < 200"
  shows "final_content vid v = analysis_block vid v"
    and "synthesize url vid v \<noteq> Inr (failure insufficient_content)"
    and "synthesize url vid v = Inr r \<Longrightarrow> success r \<and> content r = Some (trim (analysis_block vid v))"
proof -
  show fc: "final_content vid v = analysis_block vid v"
    using assms by (simp add: final_content_def)
  have gate: "\<not> (final_content vid v = [] \<or> length (trim (final_content vid v)) < 50)"
    using analysis_block_long [of vid v] unfolding fc by auto
  show "synthesize url vid v \<noteq> Inr (failure insufficient_content)"
    using gate by (auto simp: synthesize_def Let_def failure_def split: option.splits)
  show "synthesize url vid v = Inr r \<Longrightarrow> success r \<and> content r = Some (trim (analysis_block vid v))"
    using gate fc by (auto simp: synthesize_def Let_def split: option.splits)
qed

lemma synthesize_fails_only_long:
  assumes "synthesize url vid v = Inr r" "\<not> success r"
  shows "200 \<le> length (assemble v) \<and> length (trim (assemble v)) < 50"
proof -
  have long: "200 \<le> length (assemble v)"
    using synthesize_short(3) [of v url vid r] assms by fastforce
  then have "final_content vid v = assemble v" by (simp add: final_content_def)
  moreover have "final_content vid v = [] \<or> length (trim (final_content vid v)) < 50"
    using assms by (auto simp: synthesize_def Let_def split: if_splits option.splits)
  ultimately show ?thesis using long by auto
qed

text \<open>
  Claim C10, as amended.  Whenever the assembled content is under 200 code units, the
  \<open>VIDEO ANALYSIS\<close> block takes its place, the block is longer than 50 code units after
  trimming, and a video extraction that throws nothing returns \<open>success = true\<close> with the
  block as content.  The insufficient-content branch is taken by a synthesis that throws
  nothing only when the assembled content has 200 code units or more and fewer than 50
  after trimming.
\<close>

theorem short_content_gets_analysis_block:
  "(length (assemble v) < 200 \<longrightarrow>
      final_content vid v = analysis_block vid v
      \<and> 50 < length (trim (analysis_block vid v))
      \<and> synthesize url vid v \<noteq> Inr (failure insufficient_content)
      \<and> (\<forall>r. synthesize url vid v = Inr r
             \<longrightarrow> success r \<and> content r = Some (trim (analysis_block vid v))))
   \<and> (\<forall>r. synthesize url vid v = Inr r \<and> \<not> success r
         \<longrightarrow> 200 \<le> length (assemble v) \<and> length (trim (assemble v)) < 50)"
proof (intro conjI impI allI)
  assume s: "length (assemble v) < 200"
  show "final_content vid v = analysis_block vid v" using s by (rule synthesize_short(1))
  show "synthesize url vid v \<noteq> Inr (failure insufficient_content)"
    using s by (rule synthesize_short(2))
  fix r
  assume "synthesize url vid v = Inr r"
  with s show "success r" "content r = Some (trim (analysis_block vid v))"
    using synthesize_short(3) by blast+
next
  show "50 < length (trim (analysis_block vid v))" by (rule analysis_block_long)
next
  fix r
  assume "synthesize url vid v = Inr r \<and> \<not> success r"
  then show "200 \<le> length (assemble v)" "length (trim (assemble v)) < 50"
    using synthesize_fails_only_long by blast+
qed

subsection \<open>Two runs of the video chain\<close>

lemma video_id: "extractYouTubeVideoId video_url = Some ''dQw4w9WgXcQ''"
  by code_simp

lemma oembed_url_video:
  "oembed_url video_url = ''https://www.youtube.com/oembed?url=https%3A%2F%2Fyoutu.be%2FdQw4w9WgXcQ&format=json''"
  by code_simp

lemma blank_title_collect:
  "collect blank_title_server video_url ''dQw4w9WgXcQ''
     = \<lparr>videoTitle = Some (replicate 200 CHR '' ''), videoDescription = Some [], transcript = [],
        channelName = Some [], viewCount = Some [], publishDate = Some [],
        calls = [Fetch (watch_url ''dQw4w9WgXcQ''), Fetch (oembed_url video_url)]\<rparr>"
  by code_simp

lemma blank_title_trim:
  "trim (''TITLE: '' @ replicate 200 CHR '' '' @ ''\<newline>\<newline>'') = ''TITLE:''"
  by code_simp

lemma blank_title_assemble:
  "assemble (collect blank_title_server video_url ''dQw4w9WgXcQ'')
     = ''TITLE: '' @ replicate 200 CHR '' '' @ ''\<newline>\<newline>''"
  unfolding blank_title_collect
  by (simp add: assemble_def has_transcript_def has_description_def truthy_def tpl_def)

lemma blank_title_synthesis:
  "synthesize video_url ''dQw4w9WgXcQ'' (collect blank_title_server video_url ''dQw4w9WgXcQ'')
     = Inr (failure insufficient_content)"
proof -
  have "final_content ''dQw4w9WgXcQ'' (collect blank_title_server video_url ''dQw4w9WgXcQ'')
      = ''TITLE: '' @ replicate 200 CHR '' '' @ ''\<newline>\<newline>''"
    unfolding final_content_def blank_title_assemble by simp
  then have "length (trim (final_content ''dQw4w9WgXcQ''
      (collect blank_title_server video_url ''dQw4w9WgXcQ''))) < 50"
    by (simp only: blank_title_trim) simp
  then show ?thesis
    unfolding synthesize_def Let_def by simp
qed

theorem short_content_gets_analysis_block_witness:
  "length (assemble yt_init) < 200
   \<and> final_content ''dQw4w9WgXcQ'' yt_init = analysis_block ''dQw4w9WgXcQ'' yt_init
   \<and> (\<exists>r. synthesize video_url ''dQw4w9WgXcQ'' yt_init = Inr r \<and> success r)
   \<and> synthesize video_url ''dQw4w9WgXcQ'' (collect blank_title_server video_url ''dQw4w9WgXcQ'')
       = Inr (failure insufficient_content)
   \<and> \<not> success (failure insufficient_content)
   \<and> 200 \<le> length (assemble (collect blank_title_server video_url ''dQw4w9WgXcQ''))"
proof -
  have s: "length (assemble yt_init) < 200"
    by (simp add: assemble_def yt_init_def has_transcript_def has_description_def truthy_def)
  note t = short_content_gets_analysis_block [of yt_init "''dQw4w9WgXcQ''" video_url]
  have gate: "\<not> (final_content ''dQw4w9WgXcQ'' yt_init = []
        \<or> length (trim (final_content ''dQw4w9WgXcQ'' yt_init)) < 50)"
    using t s by auto
  have "\<exists>r. synthesize video_url ''dQw4w9WgXcQ'' yt_init = Inr r"
    using gate by (simp add: synthesize_def Let_def yt_init_def)
  with t s have a: "\<exists>r. synthesize video_url ''dQw4w9WgXcQ'' yt_init = Inr r \<and> success r" by blast
  from short_content_gets_analysis_block
    [of "collect blank_title_server video_url ''dQw4w9WgXcQ''" "''dQw4w9WgXcQ''" video_url]
    blank_title_synthesis
  have "200 \<le> length (assemble (collect blank_title_server video_url ''dQw4w9WgXcQ''))"
    by simp
  with s t a blank_title_synthesis show ?thesis by simp
qed

text \<open>
  The claim as stated fails: when the page cannot be fetched and oEmbed gives a title of
  200 spaces, the assembled content has 209 code units, the analysis block is not
  substituted, trimming leaves 6 code units, and the extraction returns the
  insufficient-content failure without anything being thrown.
\<close>

theorem blank_title_insufficient:
  "extractYouTubeVideoId video_url = Some ''dQw4w9WgXcQ''
   \<and> length (assemble (collect blank_title_server video_url ''dQw4w9WgXcQ'')) = 209
   \<and> length (trim (assemble (collect blank_title_server video_url ''dQw4w9WgXcQ''))) = 6
   \<and> synthesize video_url ''dQw4w9WgXcQ'' (collect blank_title_server video_url ''dQw4w9WgXcQ'')
       = Inr (failure insufficient_content)
   \<and> fst (scrapeYouTubeContentEnhanced blank_title_server video_url) = failure insufficient_content
   \<and> \<not> success (fst (scrapeYouTubeContentEnhanced blank_title_server video_url))"
proof -
  have "fst (scrapeYouTubeContentEnhanced blank_title_server video_url) = failure insufficient_content"
    unfolding scrapeYouTubeContentEnhanced_def video_id Let_def
    by (simp add: blank_title_synthesis)
  moreover have "length (''TITLE: '' @ replicate 200 CHR '' '' @ ''\<newline>\<newline>'') = 209"
    by simp
  moreover have "length (trim (''TITLE: '' @ replicate 200 CHR '' '' @ ''\<newline>\<newline>'')) = 6"
    by (simp only: blank_title_trim) simp
  ultimately show ?thesis
    unfolding blank_title_assemble
    using video_id blank_title_synthesis by simp
qed

subsection \<open>The weak title\<close>

lemma oembed_keeps_title:
  "truthy (videoTitle v) \<Longrightarrow> videoTitle (oembed_method env url v) = videoTitle v"
  by (auto simp: oembed_method_def apply_oembed_def Let_def split: sum.splits)

lemma api_keeps_title:
  "truthy (videoTitle v) \<Longrightarrow> videoTitle (api_method env vid v) = videoTitle v"
  by (auto simp: api_method_def apply_video_def Let_def split: sum.splits option.splits list.splits)

lemma weak_title_page:
  "page_method weak_title_server ''dQw4w9WgXcQ'' (transcript_method weak_title_server ''dQw4w9WgXcQ'' yt_init)
     = \<lparr>videoTitle = Some ''12K'', videoDescription = Some [], transcript = [],
        channelName = Some [], viewCount = Some [], publishDate = Some [],
        calls = [Fetch (watch_url ''dQw4w9WgXcQ'')]\<rparr>"
  by code_simp

lemma weak_title_looks_weak: "looksWeakTitle (Some ''12K'')"
  by code_simp

lemma weak_title_collect:
  "collect weak_title_server video_url ''dQw4w9WgXcQ''
     = \<lparr>videoTitle = Some ''12K'', videoDescription = Some [], transcript = [],
        channelName = Some ''Real Channel'', viewCount = Some [], publishDate = Some [],
        calls = [Fetch (watch_url ''dQw4w9WgXcQ''), Fetch (oembed_url video_url)]\<rparr>"
  by code_simp

text \<open>
  Claim C4, on the code.  The page is \<open><title>12K - YouTube</title>\<close>, so the page scrape
  leaves the title \<open>12K\<close>, which is judged weak; the oEmbed endpoint is requested and
  answers with the title \<open>Real Title\<close> and the author \<open>Real Channel\<close>.  The author is taken
  over; the title is not, because the code assigns it only when the scraped title is
  empty.  The result is \<open>success = true\<close> with the title \<open>12K\<close>.
\<close>

theorem weak_title_is_kept:
  "extractYouTubeVideoId video_url = Some ''dQw4w9WgXcQ''
   \<and> videoTitle (page_method weak_title_server ''dQw4w9WgXcQ''
                  (transcript_method weak_title_server ''dQw4w9WgXcQ'' yt_init)) = Some ''12K''
   \<and> looksWeakTitle (Some ''12K'')
   \<and> snd (scrapeYouTubeContentEnhanced weak_title_server video_url)
       = [Fetch (watch_url ''dQw4w9WgXcQ''), Fetch (oembed_url video_url)]
   \<and> channelName (collect weak_title_server video_url ''dQw4w9WgXcQ'') = Some ''Real Channel''
   \<and> success (fst (scrapeYouTubeContentEnhanced weak_title_server video_url))
   \<and> title (fst (scrapeYouTubeContentEnhanced weak_title_server video_url)) = Some ''12K''"
proof -
  let ?v = "collect weak_title_server video_url ''dQw4w9WgXcQ''"
  have short: "length (assemble ?v) < 200"
    unfolding weak_title_collect
    by (simp add: assemble_def has_transcript_def has_description_def truthy_def tpl_def)
  have gate: "\<not> (final_content ''dQw4w9WgXcQ'' ?v = []
        \<or> length (trim (final_content ''dQw4w9WgXcQ'' ?v)) < 50)"
    using synthesize_short(1) [OF short] analysis_block_long [of "''dQw4w9WgXcQ''" ?v] by auto
  have d: "videoDescription ?v = Some []" "videoTitle ?v = Some ''12K''" "calls ?v = [Fetch (watch_url ''dQw4w9WgXcQ''), Fetch (oembed_url video_url)]"
    "channelName ?v = Some ''Real Channel''"
    unfolding weak_title_collect by simp_all
  obtain r where r: "synthesize video_url ''dQw4w9WgXcQ'' ?v = Inr r"
    "success r" "title r = Some ''12K''"
    using gate d(1,2) by (simp add: synthesize_def Let_def or_else_def)
  have "scrapeYouTubeContentEnhanced weak_title_server video_url = (r, calls ?v)"
    unfolding scrapeYouTubeContentEnhanced_def video_id Let_def using r(1) by simp
  with r d video_id weak_title_looks_weak weak_title_page show ?thesis by simp
qed

subsection \<open>The article gate\<close>

lemma content_loop_Cons:
  "content_loop (pat # ps) html cur =
     (case candidate pat html of
        None \<Rightarrow> content_loop ps html cur
      | Some (Inl e) \<Rightarrow> Inl e
      | Some (Inr c) \<Rightarrow> if 200 < length c then Inr c else content_loop ps html c)"
  by (cases pat) (auto simp: Let_def split: option.splits prod.splits)

lemma content_loop_result:
  assumes "content_loop ps html cur = Inr c"
  shows "(c = cur \<and> (\<forall>pat\<in>set ps. candidate pat html = None))
       \<or> (\<exists>ps1 pat ps2. ps = ps1 @ pat # ps2 \<and> candidate pat html = Some (Inr c)
             \<and> (\<forall>q\<in>set ps1. passes q html)
             \<and> (length c \<le> 200 \<longrightarrow> (\<forall>q\<in>set ps2. candidate q html = None)))"
  using assms
proof (induction ps arbitrary: cur)
  case Nil
  then show ?case by simp
next
  case (Cons pat ps)
  show ?case
  proof (cases "candidate pat html")
    case None
    with Cons.prems have run: "content_loop ps html cur = Inr c"
      by (simp add: content_loop_Cons)
    from None have p: "passes pat html" by (simp add: passes_def)
    from Cons.IH [OF run] show ?thesis
    proof (elim disjE conjE exE)
      assume "c = cur" "\<forall>q\<in>set ps. candidate q html = None"
      with None show ?thesis by simp
    next
      fix ps1 q ps2
      assume "ps = ps1 @ q # ps2" "candidate q html = Some (Inr c)" "\<forall>r\<in>set ps1. passes r html"
        "length c \<le> 200 \<longrightarrow> (\<forall>r\<in>set ps2. candidate r html = None)"
      with p have "pat # ps = (pat # ps1) @ q # ps2 \<and> candidate q html = Some (Inr c)
          \<and> (\<forall>r\<in>set (pat # ps1). passes r html)
          \<and> (length c \<le> 200 \<longrightarrow> (\<forall>r\<in>set ps2. candidate r html = None))"
        by simp
      then show ?thesis by blast
    qed
  next
    case (Some v)
    show ?thesis
    proof (cases v)
      case (Inl e)
      with Some Cons.prems show ?thesis by (simp add: content_loop_Cons)
    next
      case (Inr d)
      show ?thesis
      proof (cases "200 < length d")
        case True
        with Some Inr Cons.prems have "c = d" by (simp add: content_loop_Cons)
        with Some Inr True have "pat # ps = [] @ pat # ps \<and> candidate pat html = Some (Inr c)
            \<and> (\<forall>r\<in>set []. passes r html)
            \<and> (length c \<le> 200 \<longrightarrow> (\<forall>r\<in>set ps. candidate r html = None))"
          by simp
        then show ?thesis by blast
      next
        case False
        with Some Inr Cons.prems have run: "content_loop ps html d = Inr c"
          by (simp add: content_loop_Cons)
        from Some Inr False have p: "passes pat html" by (simp add: passes_def)
        from Cons.IH [OF run] show ?thesis
        proof (elim disjE conjE exE)
          assume "c = d" "\<forall>q\<in>set ps. candidate q html = None"
          with Some Inr have "pat # ps = [] @ pat # ps \<and> candidate pat html = Some (Inr c)
              \<and> (\<forall>r\<in>set []. passes r html)
              \<and> (length c \<le> 200 \<longrightarrow> (\<forall>r\<in>set ps. candidate r html = None))"
            by simp
          then show ?thesis by blast
        next
          fix ps1 q ps2
          assume "ps = ps1 @ q # ps2" "candidate q html = Some (Inr c)" "\<forall>r\<in>set ps1. passes r html"
            "length c \<le> 200 \<longrightarrow> (\<forall>r\<in>set ps2. candidate r html = None)"
          with p have "pat # ps = (pat # ps1) @ q # ps2 \<and> candidate q html = Some (Inr c)
              \<and> (\<forall>r\<in>set (pat # ps1). passes r html)
              \<and> (length c \<le> 200 \<longrightarrow> (\<forall>r\<in>set ps2. candidate r html = None))"
            by simp
          then show ?thesis by blast
        qed
      qed
    qed
  qed
qed

lemma content_loop_last:
  assumes "content_loop (ps @ [pat]) html cur = Inr c" "length c \<le> 200"
    "candidate pat html = Some (Inr d)"
  shows "c = d"
  using assms
proof (induction ps arbitrary: cur)
  case Nil
  then show ?case by (simp add: content_loop_Cons split: if_splits)
next
  case (Cons q ps)
  from Cons.prems(1) have run:
    "(case candidate q html of
        None \<Rightarrow> content_loop (ps @ [pat]) html cur
      | Some (Inl e) \<Rightarrow> Inl e
      | Some (Inr c) \<Rightarrow> if 200 < length c then Inr c else content_loop (ps @ [pat]) html c) = Inr c"
    by (simp add: content_loop_Cons)
  then obtain cur' where "content_loop (ps @ [pat]) html cur' = Inr c"
    using Cons.prems(2) by (auto split: option.splits sum.splits if_splits)
  then show ?case using Cons.prems(2,3) by (rule Cons.IH)
qed

text \<open>Whenever the page has a paragraph element and the loop ends with at most 200 code
  units, it ends with the paragraphs alone.\<close>

lemma paragraphs_replace_content:
  assumes "article_content html = Inr c" "length c \<le> 200"
    "str_match_all html paragraph_pattern True = Some ms"
  shows "c = join_paragraphs ms"
proof -
  have a: "content_loop (butlast art_content_patterns @ [(paragraph_pattern, True, True)]) html [] = Inr c"
    using assms(1) by (simp add: article_content_def art_content_patterns_def)
  have b: "candidate (paragraph_pattern, True, True) html = Some (Inr (join_paragraphs ms))"
    using assms(3) by simp
  show ?thesis by (rule content_loop_last [OF a assms(2) b])
qed

lemma main_candidates_101:
  "map (\<lambda>pat. candidate pat (main_doc 101)) art_content_patterns
     = [None, None, None, Some (Inr (replicate 101 CHR ''a'')), None, None, Some (Inr [])]"
  by code_simp

lemma main_content_101: "article_content (main_doc 101) = Inr []"
  by code_simp

lemma main_content_200: "article_content (main_doc 200) = Inr []"
  by code_simp

lemma main_content_201: "article_content (main_doc 201) = Inr (replicate 201 CHR ''a'')"
  by code_simp

lemma main_paragraphs: "str_match_all (main_doc 101) paragraph_pattern True = Some [''<p></p>'']"
  by code_simp

lemma gate_below_100:
  assumes "fetch env url = Inr resp" "ok resp" "body_text resp = Inr html"
    "article_content html = Inr c" "length c < 100"
  shows "fst (scrapeArticleContentEnhanced env url) = failure no_meaningful_content"
  using assms
  by (simp add: scrapeArticleContentEnhanced_def article_body_def article_parse_def Let_def)

lemma gate_from_100:
  assumes "fetch env url = Inr resp" "ok resp" "body_text resp = Inr html"
    "article_content html = Inr c" "100 \<le> length c" "url_hostname env url = Some h"
  shows "success (fst (scrapeArticleContentEnhanced env url))"
proof -
  from assms(5) have "c \<noteq> []" "\<not> length c < 100" by auto
  with assms show ?thesis
    by (simp add: scrapeArticleContentEnhanced_def article_body_def article_parse_def Let_def)
qed

lemma no_meaningful_content_names_cause:
  "str_includes no_meaningful_content ''heavy JavaScript''"
  "str_includes no_meaningful_content ''access restrictions''"
  by code_simp+

lemma paragraph_content_99: "article_content (paragraph_doc 99) = Inr (replicate 99 CHR ''a'')"
  by code_simp

lemma paragraph_content_101: "article_content (paragraph_doc 101) = Inr (replicate 101 CHR ''a'')"
  by code_simp

lemma paragraph_server_fetch:
  "fetch (paragraph_server n) url = Inr (html_response (paragraph_doc n))"
  "ok (html_response html)" "body_text (html_response html) = Inr html"
  "url_hostname (paragraph_server n) url = Some ''example.com''"
  by (simp_all add: paragraph_server_def html_response_def)

lemma main_server_fetch:
  "fetch (main_server n) url = Inr (html_response (main_doc n))"
  "url_hostname (main_server n) url = Some ''example.com''"
  by (simp_all add: main_server_def paragraph_server_def)

lemma paragraph_matches:
  "str_match_all (paragraph_doc 99) paragraph_pattern True = Some [paragraph_doc 99]"
  "str_match_all (paragraph_doc 101) paragraph_pattern True = Some [paragraph_doc 101]"
  by code_simp+

text \<open>
  Claim C5, as amended.  The article chain tests the value that \<open>content\<close> holds when the
  pattern loop ends.  When that value is under 100 code units the chain returns
  \<open>success = false\<close> with the message that names heavy JavaScript or access restrictions as
  the likely cause; with 100 code units or more, and a URL that parses, it returns
  \<open>success = true\<close>.  The value is the empty string when no pattern matched; otherwise it is
  what one of the patterns gave, every pattern before it having matched nothing or given at
  most 200 code units, and, unless the value has more than 200 code units, no pattern after
  it having matched.  So text found by one pattern is dropped when a later pattern matches:
  on a page with a paragraph element the value, if it has at most 200 code units, is the
  joined paragraphs alone.  In particular a page that is one paragraph of 99 letters fails
  and one of 101 letters succeeds, while a page whose letters are in a \<open>main\<close> block that
  ends with an empty paragraph fails with 200 letters and succeeds with 201.
\<close>

theorem article_gate:
  "(fetch env url = Inr resp \<and> ok resp \<and> body_text resp = Inr html \<and> article_content html = Inr c
      \<longrightarrow> (length c < 100
             \<longrightarrow> fst (scrapeArticleContentEnhanced env url) = failure no_meaningful_content)
        \<and> (100 \<le> length c \<and> url_hostname env url = Some h
             \<longrightarrow> success (fst (scrapeArticleContentEnhanced env url))))
   \<and> (article_content html = Inr c
      \<longrightarrow> (c = [] \<and> (\<forall>pat\<in>set art_content_patterns. candidate pat html = None))
        \<or> (\<exists>ps pat qs. art_content_patterns = ps @ pat # qs
              \<and> candidate pat html = Some (Inr c)
              \<and> (\<forall>q\<in>set ps. passes q html)
              \<and> (length c \<le> 200 \<longrightarrow> (\<forall>q\<in>set qs. candidate q html = None))))
   \<and> (article_content html = Inr c \<and> length c \<le> 200
        \<and> str_match_all html paragraph_pattern True = Some ms
      \<longrightarrow> c = join_paragraphs ms)
   \<and> \<not> success (failure no_meaningful_content)
   \<and> str_includes no_meaningful_content ''heavy JavaScript''
   \<and> str_includes no_meaningful_content ''access restrictions''
   \<and> article_content (paragraph_doc 99) = Inr (replicate 99 CHR ''a'')
   \<and> \<not> success (fst (scrapeArticleContentEnhanced (paragraph_server 99) ''https://example.com/a''))
   \<and> article_content (paragraph_doc 101) = Inr (replicate 101 CHR ''a'')
   \<and> success (fst (scrapeArticleContentEnhanced (paragraph_server 101) ''https://example.com/a''))
   \<and> \<not> success (fst (scrapeArticleContentEnhanced (main_server 200) ''https://example.com/a''))
   \<and> success (fst (scrapeArticleContentEnhanced (main_server 201) ''https://example.com/a''))"
proof -
  have lo: "fst (scrapeArticleContentEnhanced (paragraph_server 99) ''https://example.com/a'')
      = failure no_meaningful_content"
    using paragraph_server_fetch(1) paragraph_server_fetch(2) paragraph_server_fetch(3)
      paragraph_content_99
    by (rule gate_below_100) simp
  have hi: "success (fst (scrapeArticleContentEnhanced (paragraph_server 101) ''https://example.com/a''))"
    using paragraph_server_fetch(1) paragraph_server_fetch(2) paragraph_server_fetch(3)
      paragraph_content_101
    by (rule gate_from_100) (simp_all add: paragraph_server_fetch(4))
  have mlo: "fst (scrapeArticleContentEnhanced (main_server 200) ''https://example.com/a'')
      = failure no_meaningful_content"
    using main_server_fetch(1) paragraph_server_fetch(2) paragraph_server_fetch(3)
      main_content_200
    by (rule gate_below_100) simp
  have mhi: "success (fst (scrapeArticleContentEnhanced (main_server 201) ''https://example.com/a''))"
    using main_server_fetch(1) paragraph_server_fetch(2) paragraph_server_fetch(3)
      main_content_201
    by (rule gate_from_100) (simp_all add: main_server_fetch(2))
  have loop: "article_content html = Inr c
      \<longrightarrow> (c = [] \<and> (\<forall>pat\<in>set art_content_patterns. candidate pat html = None))
        \<or> (\<exists>ps pat qs. art_content_patterns = ps @ pat # qs
              \<and> candidate pat html = Some (Inr c)
              \<and> (\<forall>q\<in>set ps. passes q html)
              \<and> (length c \<le> 200 \<longrightarrow> (\<forall>q\<in>set qs. candidate q html = None)))"
    unfolding article_content_def by (rule impI) (rule content_loop_result)
  have par: "article_content html = Inr c \<and> length c \<le> 200
        \<and> str_match_all html paragraph_pattern True = Some ms
      \<longrightarrow> c = join_paragraphs ms"
    using paragraphs_replace_content [of html c ms] by simp
  have gate: "fetch env url = Inr resp \<and> ok resp \<and> body_text resp = Inr html
        \<and> article_content html = Inr c
      \<longrightarrow> (length c < 100
             \<longrightarrow> fst (scrapeArticleContentEnhanced env url) = failure no_meaningful_content)
        \<and> (100 \<le> length c \<and> url_hostname env url = Some h
             \<longrightarrow> success (fst (scrapeArticleContentEnhanced env url)))"
    using gate_below_100 [of env url resp html c] gate_from_100 [of env url resp html c h]
    by simp
  from lo hi mlo mhi no_meaningful_content_names_cause paragraph_content_99 paragraph_content_101
  have rest: "\<not> success (failure no_meaningful_content)
   \<and> str_includes no_meaningful_content ''heavy JavaScript''
   \<and> str_includes no_meaningful_content ''access restrictions''
   \<and> article_content (paragraph_doc 99) = Inr (replicate 99 CHR ''a'')
   \<and> \<not> success (fst (scrapeArticleContentEnhanced (paragraph_server 99) ''https://example.com/a''))
   \<and> article_content (paragraph_doc 101) = Inr (replicate 101 CHR ''a'')
   \<and> success (fst (scrapeArticleContentEnhanced (paragraph_server 101) ''https://example.com/a''))
   \<and> \<not> success (fst (scrapeArticleContentEnhanced (main_server 200) ''https://example.com/a''))
   \<and> success (fst (scrapeArticleContentEnhanced (main_server 201) ''https://example.com/a''))"
    by (simp add: failure_def)
  from gate loop par rest show ?thesis by (intro conjI) (elim conjE; assumption)+
qed

theorem article_gate_witness:
  "fetch (paragraph_server 99) ''https://example.com/a'' = Inr (html_response (paragraph_doc 99))
   \<and> ok (html_response (paragraph_doc 99))
   \<and> body_text (html_response (paragraph_doc 99)) = Inr (paragraph_doc 99)
   \<and> article_content (paragraph_doc 99) = Inr (replicate 99 CHR ''a'')
   \<and> length (replicate 99 CHR ''a'') < 100
   \<and> str_match_all (paragraph_doc 99) paragraph_pattern True = Some [paragraph_doc 99]
   \<and> replicate 99 CHR ''a'' = join_paragraphs [paragraph_doc 99]
   \<and> fst (scrapeArticleContentEnhanced (paragraph_server 99) ''https://example.com/a'')
       = failure no_meaningful_content
   \<and> fetch (paragraph_server 101) ''https://example.com/a'' = Inr (html_response (paragraph_doc 101))
   \<and> article_content (paragraph_doc 101) = Inr (replicate 101 CHR ''a'')
   \<and> 100 \<le> length (replicate 101 CHR ''a'')
   \<and> url_hostname (paragraph_server 101) ''https://example.com/a'' = Some ''example.com''
   \<and> success (fst (scrapeArticleContentEnhanced (paragraph_server 101) ''https://example.com/a''))
   \<and> fetch (main_server 101) ''https://example.com/a'' = Inr (html_response (main_doc 101))
   \<and> article_content (main_doc 101) = Inr []
   \<and> str_match_all (main_doc 101) paragraph_pattern True = Some [''<p></p>'']
   \<and> [] = join_paragraphs [''<p></p>'']
   \<and> fst (scrapeArticleContentEnhanced (main_server 101) ''https://example.com/a'')
       = failure no_meaningful_content"
proof -
  note a = article_gate [of "paragraph_server 99" "''https://example.com/a''"
      "html_response (paragraph_doc 99)" "paragraph_doc 99" "replicate 99 CHR ''a''" "''example.com''"
      "[paragraph_doc 99]"]
  note b = article_gate [of "paragraph_server 101" "''https://example.com/a''"
      "html_response (paragraph_doc 101)" "paragraph_doc 101" "replicate 101 CHR ''a''" "''example.com''"
      "[paragraph_doc 101]"]
  note c = article_gate [of "main_server 101" "''https://example.com/a''"
      "html_response (main_doc 101)" "main_doc 101" "[]" "''example.com''" "[''<p></p>'']"]
  have len: "length (replicate 99 CHR ''a'') < 100" "100 \<le> length (replicate 101 CHR ''a'')"
    "length (replicate 99 CHR ''a'') \<le> 200" "length ([] :: string) < 100"
    "length ([] :: string) \<le> 200"
    by simp_all
  have a1: "fst (scrapeArticleContentEnhanced (paragraph_server 99) ''https://example.com/a'')
       = failure no_meaningful_content"
    using a [THEN conjunct1] paragraph_server_fetch(1) paragraph_server_fetch(2)
      paragraph_server_fetch(3) paragraph_content_99 len(1)
    by blast
  have a2: "replicate 99 CHR ''a'' = join_paragraphs [paragraph_doc 99]"
    using a [THEN conjunct2, THEN conjunct2, THEN conjunct1] paragraph_content_99 len(3)
      paragraph_matches(1)
    by blast
  have b1: "success (fst (scrapeArticleContentEnhanced (paragraph_server 101) ''https://example.com/a''))"
    using b [THEN conjunct1] paragraph_server_fetch(1) paragraph_server_fetch(2)
      paragraph_server_fetch(3) paragraph_server_fetch(4) paragraph_content_101 len(2)
    by blast
  have c1: "fst (scrapeArticleContentEnhanced (main_server 101) ''https://example.com/a'')
       = failure no_meaningful_content"
    using c [THEN conjunct1] main_server_fetch(1) paragraph_server_fetch(2)
      paragraph_server_fetch(3) main_content_101 len(4)
    by blast
  have c2: "[] = join_paragraphs [''<p></p>'']"
    using c [THEN conjunct2, THEN conjunct2, THEN conjunct1] main_content_101 len(5)
      main_paragraphs
    by blast
  show ?thesis
    by (intro conjI)
      (rule a1 a2 b1 c1 c2 len paragraph_server_fetch main_server_fetch paragraph_content_99
        paragraph_content_101 main_content_101 paragraph_matches main_paragraphs)+
qed

text \<open>
  The claim as stated fails: the page \<^verbatim>\<open><main>a...a<p></p></main>\<close> with 101 letters has no
  other text, and the \<open>main\<close> pattern gives these 101 letters, cleaned.  The paragraph
  pattern then matches the empty paragraph and leaves the empty string in \<open>content\<close>, so
  the chain returns \<open>success = false\<close>.
\<close>

theorem main_text_discarded:
  "map (\<lambda>pat. candidate pat (main_doc 101)) art_content_patterns
     = [None, None, None, Some (Inr (replicate 101 CHR ''a'')), None, None, Some (Inr [])]
   \<and> article_content (main_doc 101) = Inr []
   \<and> fst (scrapeArticleContentEnhanced (main_server 101) ''https://example.com/a'')
       = failure no_meaningful_content
   \<and> \<not> success (fst (scrapeArticleContentEnhanced (main_server 101) ''https://example.com/a''))"
proof -
  have "fst (scrapeArticleContentEnhanced (main_server 101) ''https://example.com/a'')
      = failure no_meaningful_content"
    using main_server_fetch(1) paragraph_server_fetch(2) paragraph_server_fetch(3)
      main_content_101
    by (rule gate_below_100) simp
  with main_candidates_101 main_content_101 show ?thesis by (simp add: failure_def)
qed

end
